theory Spec2Isabelle
  imports Complex_Main
begin

section \<open>Data model (src/types.ts)\<close>

datatype TileType = GRASS | FOREST | MOUNTAIN | WATER | SAND | FLOOR | WALL

datatype ResourceType = WOOD | STONE | FOOD | FATE

datatype NPCState = IDLE | MOVING | GATHERING | BUILDING | SLEEPING | FIGHTING | CRAFTING | FARMING

datatype NPCRole = WORKER | GUARD | EXPLORER | BUILDER | FARMER

datatype StructureType = BASE | WAREHOUSE | TOWER | FARM | HOUSE

datatype Weather = SUNNY | RAIN | NIGHT

datatype LogType = INFO | DANGER | SUCCESS | FUNNY

text \<open>
  The coordinates of a \<open>Position\<close> are the fields \<open>x\<close> and \<open>y\<close> of the source; they are
  named \<open>px\<close> and \<open>py\<close> here, the field \<open>id\<close> of an entity is \<open>eid\<close> and the field \<open>map\<close>
  of the game state is \<open>tiles\<close>. Numbers that the program only ever uses as integers are
  \<open>int\<close>.
\<close>

record Position =
  px :: int
  py :: int

text \<open>
  \<open>Entity\<close> is the common part of \<open>NPC\<close> and \<open>Building\<close>. The fields \<open>type\<close>, \<open>color\<close>,
  \<open>spriteIndex\<close>, \<open>inventory\<close> and \<open>traits\<close> are only drawn, never read by the game logic,
  and are left out.
\<close>

record Entity =
  eid :: string
  name :: string
  pos :: Position

record NPC = Entity +
  state :: NPCState
  targetPos :: "Position option"
  health :: int
  maxHealth :: int
  role :: NPCRole
  pickaxe :: bool
  sword :: bool
  actionTimer :: int
  thought :: string

record Building = Entity +
  structureType :: StructureType
  completed :: bool
  constructionProgress :: int
  maxConstructionProgress :: int

text \<open>
  A log entry also carries an \<open>id\<close> and a \<open>timestamp\<close>, both made from the wall clock when
  the entry is written and read by nothing in the logic; the model keeps the message and
  the type.
\<close>

record LogEntry =
  message :: string
  ltype :: LogType

record GameState =
  colonyName :: string
  seed :: int
  tiles :: "TileType list list"
  width :: int
  height :: int
  npcs :: "NPC list"
  buildings :: "Building list"
  resources :: "ResourceType \<Rightarrow> int"
  logs :: "LogEntry list"
  tickCount :: int
  weather :: Weather
  epoch :: int
  selectedEntityId :: "string option"

section \<open>Constants (src/constants.ts)\<close>

definition MAP_WIDTH :: nat where
  "MAP_WIDTH = 50"

definition MAP_HEIGHT :: nat where
  "MAP_HEIGHT = 40"

definition NAMES_PREFIX :: "string list" where
  "NAMES_PREFIX = [''Bim'', ''Bom'', ''Dar'', ''Kor'', ''Zan'', ''El'', ''Fim'', ''Gim'', ''Huk'', ''Tor'']"

definition NAMES_SUFFIX :: "string list" where
  "NAMES_SUFFIX = [''li'', ''bo'', ''grum'', ''rak'', ''thos'', ''dall'', ''rin'', ''dun'', ''dor'', ''min'']"

definition FUNNY_MESSAGES :: "string list" where
  "FUNNY_MESSAGES =
    [''contemplating the roundness of rocks.'',
     ''thinking about growing a second beard.'',
     ''arguing with a squirrel.'',
     ''trying to invent the sandwich.'',
     ''forgot where they put the shovel.'',
     ''singing a song about gold.'',
     ''worried about the economy.'',
     ''wondering if clouds taste like wool.'',
     ''planning a nap.'']"

text \<open>A cost table maps a resource to an amount; a resource that is absent is not charged.\<close>

fun BUILDING_COSTS :: "StructureType \<Rightarrow> ResourceType \<Rightarrow> int option" where
  "BUILDING_COSTS BASE = Map.empty"
| "BUILDING_COSTS WAREHOUSE = [WOOD \<mapsto> 50]"
| "BUILDING_COSTS TOWER = [WOOD \<mapsto> 20, STONE \<mapsto> 50]"
| "BUILDING_COSTS FARM = [WOOD \<mapsto> 30, STONE \<mapsto> 10]"
| "BUILDING_COSTS HOUSE = [WOOD \<mapsto> 40]"

definition PICKAXE_WOOD :: int where
  "PICKAXE_WOOD = 10"

section \<open>Helpers of the runtime\<close>

text \<open>
  The only exception the game logic can raise is the \<open>TypeError\<close> of reading or writing
  \<open>map[y][x]\<close> when the map has no row \<open>y\<close>.
\<close>

datatype error = TypeError

text \<open>The remainder operator \<open>%\<close> of JavaScript takes the sign of the dividend.\<close>

definition js_rem :: "int \<Rightarrow> int \<Rightarrow> int" where
  "js_rem a b = sgn a * (\<bar>a\<bar> mod \<bar>b\<bar>)"

text \<open>\<open>Math.sign\<close> on an integer.\<close>

definition js_sign :: "int \<Rightarrow> int" where
  "js_sign d = (if d > 0 then 1 else if d < 0 then - 1 else 0)"

text \<open>
  \<open>Math.random()\<close> is an input of the program: a call of an operation receives the
  sequence of its draws as a function from the number of the draw to a rational, and the
  fractional part keeps every draw in the interval from 0 (included) to 1 (excluded).
  Comparisons of a draw with a decimal literal are read exactly.
\<close>

type_synonym rng = "nat \<Rightarrow> rat"

definition random :: "rng \<Rightarrow> nat \<Rightarrow> rat" where
  "random rnd k = frac (rnd k)"

text \<open>\<open>Math.floor(Math.random() * n)\<close>.\<close>

definition random_below :: "rng \<Rightarrow> nat \<Rightarrow> int \<Rightarrow> int" where
  "random_below rnd k n = \<lfloor>random rnd k * of_int n\<rfloor>"

text \<open>Decimal digits of a clock reading, as a template string prints them.\<close>

definition digit_char :: "nat \<Rightarrow> char" where
  "digit_char d = ''0123456789'' ! d"

fun show_nat :: "nat \<Rightarrow> string" where
  "show_nat n =
     (if n < 10 then [digit_char n]
      else show_nat (n div 10) @ [digit_char (n mod 10)])"

declare show_nat.simps [simp del]

text \<open>
  Reading \<open>map[y][x]\<close>: a missing row raises, a missing cell of an existing row reads as
  \<open>undefined\<close> (\<open>None\<close>).
\<close>

definition tile_at :: "TileType list list \<Rightarrow> int \<Rightarrow> int \<Rightarrow> TileType option" where
  "tile_at m cx cy =
     (if 0 \<le> cy \<and> cy < int (length m) \<and> 0 \<le> cx \<and> cx < int (length (m ! nat cy))
      then Some (m ! nat cy ! nat cx) else None)"

definition read_tile :: "TileType list list \<Rightarrow> int \<Rightarrow> int \<Rightarrow> error + TileType option" where
  "read_tile m cx cy =
     (if 0 \<le> cy \<and> cy < int (length m) then Inr (tile_at m cx cy) else Inl TypeError)"

text \<open>
  Writing \<open>map[y][x] = v\<close>: a missing row raises. An assignment outside an existing row
  would grow the JavaScript array (or, for a negative index, set a property that is not
  an element); the row of the model is then left as it is. No assignment of the program
  is outside the row when the map has at least seven columns: map generation writes
  the centre block, and gathering writes a cell it has just read.
\<close>

definition write_tile :: "TileType list list \<Rightarrow> int \<Rightarrow> int \<Rightarrow> TileType \<Rightarrow> error + TileType list list" where
  "write_tile m cx cy v =
     (if 0 \<le> cy \<and> cy < int (length m)
      then Inr (if 0 \<le> cx \<and> cx < int (length (m ! nat cy))
                then m[nat cy := (m ! nat cy)[nat cx := v]] else m)
      else Inl TypeError)"

definition distance :: "Position \<Rightarrow> Position \<Rightarrow> int" where
  "distance p1 p2 = \<bar>px p1 - px p2\<bar> + \<bar>py p1 - py p2\<bar>"

section \<open>Map generation (src/utils/gameLogic.ts)\<close>

text \<open>
  \<open>PseudoRandom.next\<close>: the new seed, and the value \<open>seed / 233280\<close> it returns. The seed
  is an integer; the model is exact as long as \<open>seed * 9301 + 49297\<close> is a safe integer of
  JavaScript.
\<close>

definition next_seed :: "int \<Rightarrow> int" where
  "next_seed sd = js_rem (sd * 9301 + 49297) 233280"

definition seed_value :: "int \<Rightarrow> rat" where
  "seed_value sd = of_int sd / 233280"

definition tile_of_rand :: "rat \<Rightarrow> TileType" where
  "tile_of_rand rand =
     (if rand < 5 / 100 then MOUNTAIN
      else if rand < 20 / 100 then FOREST
      else if rand < 25 / 100 then WATER
      else if rand < 27 / 100 then SAND
      else GRASS)"

text \<open>The inner loop over \<open>x\<close>: the tiles of one row and the seed after it.\<close>

fun gen_row :: "nat \<Rightarrow> int \<Rightarrow> TileType list \<times> int" where
  "gen_row 0 sd = ([], sd)"
| "gen_row (Suc n) sd =
     (let sd' = next_seed sd;
          (ts, sd'') = gen_row n sd'
      in (tile_of_rand (seed_value sd') # ts, sd''))"

text \<open>The outer loop over \<open>y\<close>.\<close>

fun gen_rows :: "nat \<Rightarrow> nat \<Rightarrow> int \<Rightarrow> TileType list list" where
  "gen_rows 0 w sd = []"
| "gen_rows (Suc n) w sd =
     (let (r, sd') = gen_row w sd in r # gen_rows n w sd')"

text \<open>The two loops that clear the centre.\<close>

fun clear_row :: "TileType list list \<Rightarrow> int \<Rightarrow> int list \<Rightarrow> error + TileType list list" where
  "clear_row m cy [] = Inr m"
| "clear_row m cy (cx # cxs) =
     (case write_tile m cx cy GRASS of
        Inl e \<Rightarrow> Inl e
      | Inr m' \<Rightarrow> clear_row m' cy cxs)"

fun clear_block :: "TileType list list \<Rightarrow> int list \<Rightarrow> int list \<Rightarrow> error + TileType list list" where
  "clear_block m [] cxs = Inr m"
| "clear_block m (cy # cys) cxs =
     (case clear_row m cy cxs of
        Inl e \<Rightarrow> Inl e
      | Inr m' \<Rightarrow> clear_block m' cys cxs)"

definition generateMap :: "nat \<Rightarrow> nat \<Rightarrow> int \<Rightarrow> error + TileType list list" where
  "generateMap w h sd =
     (let m = gen_rows h w sd;
          cx = int w div 2;
          cy = int h div 2
      in clear_block m [cy - 3 .. cy + 3] [cx - 3 .. cx + 3])"

section \<open>Genesis\<close>

text \<open>\<open>generateName\<close>, with its two draws.\<close>

definition generateName :: "rng \<Rightarrow> nat \<Rightarrow> string" where
  "generateName rnd k =
     NAMES_PREFIX ! nat (random_below rnd k (int (length NAMES_PREFIX)))
     @ NAMES_SUFFIX ! nat (random_below rnd (k + 1) (int (length NAMES_SUFFIX)))"

text \<open>\<open>(Math.random() > 0.5 ? 1 : -1) * Math.floor(Math.random() * 3)\<close>.\<close>

definition spawn_offset :: "rng \<Rightarrow> nat \<Rightarrow> int" where
  "spawn_offset rnd k = (if random rnd k > 1 / 2 then 1 else - 1) * random_below rnd (k + 1) 3"

text \<open>
  The \<open>i\<close>-th starting agent. It takes six draws, from \<open>k\<close> on, in the order of the
  object literal: name, then \<open>x\<close>, then \<open>y\<close>. \<open>now\<close> is the reading of \<open>Date.now()\<close>.
\<close>

definition spawn_npc :: "rng \<Rightarrow> nat \<Rightarrow> nat \<Rightarrow> nat \<Rightarrow> NPC" where
  "spawn_npc rnd k now i =
     \<lparr> eid = ''npc_'' @ show_nat now @ ''_'' @ show_nat i,
       name = generateName rnd k,
       pos = \<lparr> px = int MAP_WIDTH div 2 + spawn_offset rnd (k + 2),
               py = int MAP_HEIGHT div 2 + spawn_offset rnd (k + 4) \<rparr>,
       state = IDLE,
       targetPos = None,
       health = 100,
       maxHealth = 100,
       role = (if i = 0 then GUARD else WORKER),
       pickaxe = False,
       sword = False,
       actionTimer = 0,
       thought = ''New world!'' \<rparr>"

definition base_building :: Building where
  "base_building =
     \<lparr> eid = ''base_01'',
       name = ''Town Hall'',
       pos = \<lparr> px = int MAP_WIDTH div 2, py = int MAP_HEIGHT div 2 \<rparr>,
       structureType = BASE,
       completed = True,
       constructionProgress = 100,
       maxConstructionProgress = 100 \<rparr>"

text \<open>
  \<open>createInitialState\<close>. Without a seed the first draw makes one. \<open>now i\<close> is the clock
  reading when the \<open>i\<close>-th agent is made.
\<close>

definition createInitialState :: "string \<Rightarrow> int option \<Rightarrow> rng \<Rightarrow> (nat \<Rightarrow> nat) \<Rightarrow> error + GameState" where
  "createInitialState nm seedInput rnd now =
     (let (sd, k) = (case seedInput of
                       Some v \<Rightarrow> (v, 0)
                     | None \<Rightarrow> (random_below rnd 0 1000000, 1))
      in case generateMap MAP_WIDTH MAP_HEIGHT sd of
           Inl e \<Rightarrow> Inl e
         | Inr m \<Rightarrow>
             Inr \<lparr> colonyName = nm,
                   seed = sd,
                   tiles = m,
                   width = int MAP_WIDTH,
                   height = int MAP_HEIGHT,
                   npcs = map (\<lambda>i. spawn_npc rnd (k + 6 * i) (now i) i) [0..<5],
                   buildings = [base_building],
                   resources = (\<lambda>r. 0)(FOOD := 20),
                   logs = [\<lparr> message = ''The expedition has arrived.'', ltype = INFO \<rparr>],
                   tickCount = 0,
                   weather = SUNNY,
                   epoch = 1,
                   selectedEntityId = None \<rparr>)"

section \<open>Construction\<close>

text \<open>
  \<open>placeBuilding\<close> returns \<open>null\<close> from five places; \<open>Rejected\<close> is that \<open>null\<close>, tagged
  with the check that returned it. \<open>Threw\<close> is an exception, \<open>Placed\<close> the new state.
\<close>

datatype rejection = OutOfBounds | Occupied | BadTerrain | Insufficient

datatype place_result = Threw error | Rejected rejection | Placed GameState

fun structure_name :: "StructureType \<Rightarrow> string" where
  "structure_name BASE = ''BASE''"
| "structure_name WAREHOUSE = ''WAREHOUSE''"
| "structure_name TOWER = ''TOWER''"
| "structure_name FARM = ''FARM''"
| "structure_name HOUSE = ''HOUSE''"

text \<open>\<open>cost[r] && resources[r] < cost[r]\<close>: an absent or zero cost is falsy.\<close>

definition short_of :: "(ResourceType \<Rightarrow> int option) \<Rightarrow> (ResourceType \<Rightarrow> int) \<Rightarrow> ResourceType \<Rightarrow> bool" where
  "short_of cost res r = (case cost r of None \<Rightarrow> False | Some c \<Rightarrow> c \<noteq> 0 \<and> res r < c)"

text \<open>\<open>if (cost[r]) resources[r] -= cost[r]\<close>.\<close>

definition deduct :: "(ResourceType \<Rightarrow> int option) \<Rightarrow> ResourceType \<Rightarrow> (ResourceType \<Rightarrow> int) \<Rightarrow> (ResourceType \<Rightarrow> int)" where
  "deduct cost r res =
     (case cost r of
        None \<Rightarrow> res
      | Some c \<Rightarrow> if c \<noteq> 0 then res(r := res r - c) else res)"

definition at_xy :: "int \<Rightarrow> int \<Rightarrow> 'a Entity_scheme \<Rightarrow> bool" where
  "at_xy cx cy e = (px (pos e) = cx \<and> py (pos e) = cy)"

definition placeBuilding :: "nat \<Rightarrow> GameState \<Rightarrow> int \<Rightarrow> int \<Rightarrow> StructureType \<Rightarrow> place_result" where
  "placeBuilding now s cx cy t =
     (if cx < 0 \<or> cx \<ge> int MAP_WIDTH \<or> cy < 0 \<or> cy \<ge> int MAP_HEIGHT then Rejected OutOfBounds
      else if list_ex (at_xy cx cy) (buildings s) then Rejected Occupied
      else case read_tile (tiles s) cx cy of
        Inl e \<Rightarrow> Threw e
      | Inr tile \<Rightarrow>
          if tile = Some WATER \<or> tile = Some MOUNTAIN then Rejected BadTerrain
          else
            let cost = BUILDING_COSTS t in
            if short_of cost (resources s) WOOD then Rejected Insufficient
            else if short_of cost (resources s) STONE then Rejected Insufficient
            else if short_of cost (resources s) FOOD then Rejected Insufficient
            else
              let newBuilding =
                    \<lparr> eid = ''bld_'' @ show_nat now,
                      name = (if t = FARM then ''Wheat Farm'' else ''House''),
                      pos = \<lparr> px = cx, py = cy \<rparr>,
                      structureType = t,
                      completed = False,
                      constructionProgress = 0,
                      maxConstructionProgress = 100 \<rparr>
              in Placed (s\<lparr> resources := deduct cost STONE (deduct cost WOOD (resources s)),
                            buildings := buildings s @ [newBuilding],
                            logs := \<lparr> message = ''Construction started: '' @ structure_name t,
                                      ltype = INFO \<rparr> # logs s \<rparr>))"

text \<open>
  \<open>handlePlaceBuilding\<close> of the application: the game state after a click in build mode.
  A rejection leaves the state that was there (and alerts); an exception leaves the
  handler.
\<close>

definition handlePlaceBuilding :: "nat \<Rightarrow> GameState \<Rightarrow> StructureType option \<Rightarrow> int \<Rightarrow> int \<Rightarrow> error + GameState" where
  "handlePlaceBuilding now s buildMode cx cy =
     (case buildMode of
        None \<Rightarrow> Inr s
      | Some t \<Rightarrow>
          (case placeBuilding now s cx cy t of
             Placed s' \<Rightarrow> Inr s'
           | Rejected r \<Rightarrow> Inr s
           | Threw e \<Rightarrow> Inl e))"

section \<open>Searching and moving\<close>

text \<open>
  The body of the double loop of \<open>findNearestTile\<close>. The accumulator is the pair of
  \<open>nearest\<close> and \<open>minDst\<close>; it is \<open>None\<close> while \<open>nearest\<close> is \<open>null\<close> and \<open>minDst\<close> is
  \<open>Infinity\<close>.
\<close>

definition visit_tile :: "TileType list list \<Rightarrow> Position \<Rightarrow> TileType \<Rightarrow> nat \<Rightarrow> nat \<Rightarrow> (Position \<times> int) option \<Rightarrow> (Position \<times> int) option" where
  "visit_tile m start t ty tx acc =
     (if tile_at m (int tx) (int ty) = Some t then
        let p = \<lparr> px = int tx, py = int ty \<rparr>; d = distance start p in
        (case acc of
           None \<Rightarrow> Some (p, d)
         | Some (q, minDst) \<Rightarrow> if d < minDst then Some (p, d) else acc)
      else acc)"

definition findNearestTile :: "TileType list list \<Rightarrow> Position \<Rightarrow> TileType \<Rightarrow> Position option" where
  "findNearestTile m start t =
     (case m of
        [] \<Rightarrow> None
      | row0 # rest \<Rightarrow>
          map_option fst
            (fold (\<lambda>ty. fold (visit_tile m start t ty) [0..<length row0]) [0..<length m] None))"

definition visit_entity :: "Position \<Rightarrow> (Building \<Rightarrow> bool) \<Rightarrow> Building \<Rightarrow> (Building \<times> int) option \<Rightarrow> (Building \<times> int) option" where
  "visit_entity start flt e acc =
     (if \<not> flt e then acc
      else
        let d = distance start (pos e) in
        (case acc of
           None \<Rightarrow> Some (e, d)
         | Some (q, minDst) \<Rightarrow> if d < minDst then Some (e, d) else acc))"

definition findNearestEntity :: "Building list \<Rightarrow> Position \<Rightarrow> (Building \<Rightarrow> bool) \<Rightarrow> Building option" where
  "findNearestEntity entities start flt =
     map_option fst (fold (visit_entity start flt) entities None)"

text \<open>\<open>Array.prototype.findIndex\<close>, with \<open>None\<close> for \<open>-1\<close>.\<close>

fun findIndex :: "('a \<Rightarrow> bool) \<Rightarrow> 'a list \<Rightarrow> nat option" where
  "findIndex P [] = None"
| "findIndex P (a # as) = (if P a then Some 0 else map_option Suc (findIndex P as))"

definition moveTowards :: "NPC \<Rightarrow> Position \<Rightarrow> Position" where
  "moveTowards npc target =
     (let dx = px target - px (pos npc);
          dy = py target - py (pos npc)
      in if \<bar>dx\<bar> > \<bar>dy\<bar> then (pos npc)\<lparr> px := px (pos npc) + js_sign dx \<rparr>
         else (pos npc)\<lparr> py := py (pos npc) + js_sign dy \<rparr>)"

section \<open>One tick of one agent\<close>

text \<open>
  The callback of \<open>npcs.map\<close> works on \<open>newState\<close>, which the agents before it in the list
  have already changed, and takes its draws from \<open>k\<close> on. Each state of the agent has
  its branch; a branch returns what it changes.
\<close>

text \<open>The wander target, written out four times in the source. Two draws.\<close>

definition wander :: "rng \<Rightarrow> nat \<Rightarrow> NPC \<Rightarrow> NPC" where
  "wander rnd k npc =
     npc\<lparr> targetPos :=
            Some \<lparr> px = max 0 (min (int MAP_WIDTH - 1) (px (pos npc) + random_below rnd k 5 - 2)),
                   py = max 0 (min (int MAP_HEIGHT - 1) (py (pos npc) + random_below rnd (k + 1) 5 - 2)) \<rparr>,
          state := MOVING \<rparr>"

definition idle_thought :: "rng \<Rightarrow> nat \<Rightarrow> NPC \<Rightarrow> NPC \<times> nat" where
  "idle_thought rnd k npc =
     (if random rnd k < 5 / 100
      then (npc\<lparr> thought := FUNNY_MESSAGES ! nat (random_below rnd (k + 1) (int (length FUNNY_MESSAGES))) \<rparr>,
            k + 2)
      else (npc, k + 1))"

definition idle_builder :: "rng \<Rightarrow> nat \<Rightarrow> GameState \<Rightarrow> NPC \<Rightarrow> NPC \<times> nat" where
  "idle_builder rnd k ns npc =
     (case findNearestEntity (buildings ns) (pos npc) (\<lambda>e. \<not> completed e) of
        Some site \<Rightarrow>
          (npc\<lparr> targetPos := Some (pos site), state := MOVING, thought := ''Time to build.'' \<rparr>, k)
      | None \<Rightarrow> (wander rnd k npc, k + 2))"

definition idle_farmer :: "rng \<Rightarrow> nat \<Rightarrow> GameState \<Rightarrow> NPC \<Rightarrow> NPC \<times> nat" where
  "idle_farmer rnd k ns npc =
     (case findNearestEntity (buildings ns) (pos npc) (\<lambda>e. structureType e = FARM \<and> completed e) of
        Some farm \<Rightarrow>
          (npc\<lparr> targetPos := Some (pos farm), state := MOVING, thought := ''Tending the crops.'' \<rparr>, k)
      | None \<Rightarrow> (wander rnd k npc, k + 2))"

definition idle_worker :: "rng \<Rightarrow> nat \<Rightarrow> GameState \<Rightarrow> NPC \<Rightarrow> NPC \<times> nat" where
  "idle_worker rnd k ns npc =
     (let needsCrafting = (\<not> pickaxe npc \<and> resources ns WOOD \<ge> PICKAXE_WOOD);
          (targetType, k') =
             (if \<not> pickaxe npc then (FOREST, k)
              else (if random rnd k > 1 / 2 then FOREST else MOUNTAIN, k + 1))
      in if needsCrafting then
           (case find (\<lambda>b. structureType b = BASE) (buildings ns) of
              Some base \<Rightarrow>
                (npc\<lparr> targetPos := Some (pos base), state := MOVING, thought := ''Need a pickaxe...'' \<rparr>, k')
            | None \<Rightarrow> (npc, k'))
         else
           (case findNearestTile (tiles ns) (pos npc) targetType of
              Some target \<Rightarrow> (npc\<lparr> targetPos := Some target, state := MOVING \<rparr>, k')
            | None \<Rightarrow> (wander rnd k' npc, k' + 2)))"

definition idle_other :: "rng \<Rightarrow> nat \<Rightarrow> NPC \<Rightarrow> NPC \<times> nat" where
  "idle_other rnd k npc =
     (if random rnd k < 2 / 10 then (wander rnd (k + 1) npc, k + 3) else (npc, k + 1))"

definition idle_logic :: "rng \<Rightarrow> nat \<Rightarrow> GameState \<Rightarrow> NPC \<Rightarrow> NPC \<times> nat" where
  "idle_logic rnd k ns npc =
     (let (npc1, k1) = idle_thought rnd k npc
      in if role npc1 = BUILDER then idle_builder rnd k1 ns npc1
         else if role npc1 = FARMER then idle_farmer rnd k1 ns npc1
         else if role npc1 = WORKER then idle_worker rnd k1 ns npc1
         else idle_other rnd k1 npc1)"

text \<open>The arrival logic of a moving agent whose target \<open>t\<close> is at distance at most 1.\<close>

definition arrive :: "GameState \<Rightarrow> NPC \<Rightarrow> Position \<Rightarrow> error + NPC" where
  "arrive ns npc t =
     (let base = find (\<lambda>b. structureType b = BASE \<and> at_xy (px t) (py t) b) (buildings ns);
          building = find (at_xy (px t) (py t)) (buildings ns)
      in if base \<noteq> None \<and> \<not> pickaxe npc \<and> role npc = WORKER \<and> resources ns WOOD \<ge> PICKAXE_WOOD
         then Inr (npc\<lparr> state := CRAFTING, actionTimer := 30, thought := ''Crafting pickaxe...'' \<rparr>)
         else if (case building of Some b \<Rightarrow> \<not> completed b | None \<Rightarrow> False) \<and> role npc = BUILDER
         then Inr (npc\<lparr> state := BUILDING, actionTimer := 10 \<rparr>)
         else if (case building of Some b \<Rightarrow> structureType b = FARM \<and> completed b | None \<Rightarrow> False)
                 \<and> role npc = FARMER
         then Inr (npc\<lparr> state := FARMING, actionTimer := 50 \<rparr>)
         else
           (case read_tile (tiles ns) (px t) (py t) of
              Inl e \<Rightarrow> Inl e
            | Inr tile \<Rightarrow>
                if tile = Some FOREST \<or> tile = Some MOUNTAIN
                then Inr (npc\<lparr> state := GATHERING, actionTimer := 20 \<rparr>)
                else Inr (npc\<lparr> state := IDLE, targetPos := None \<rparr>)))"

definition moving_logic :: "GameState \<Rightarrow> NPC \<Rightarrow> error + NPC" where
  "moving_logic ns npc =
     (case targetPos npc of
        None \<Rightarrow> Inr (npc\<lparr> state := IDLE \<rparr>)
      | Some t \<Rightarrow>
          if distance (pos npc) t \<le> 1 then arrive ns npc t
          else Inr (npc\<lparr> pos := moveTowards npc t \<rparr>))"

definition unshift :: "LogEntry \<Rightarrow> GameState \<Rightarrow> GameState" where
  "unshift e ns = ns\<lparr> logs := e # logs ns \<rparr>"

definition crafting_logic :: "GameState \<Rightarrow> NPC \<Rightarrow> NPC \<times> GameState" where
  "crafting_logic ns npc =
     (let npc1 = npc\<lparr> actionTimer := actionTimer npc - 1 \<rparr>
      in if actionTimer npc1 \<le> 0 then
           (if resources ns WOOD \<ge> PICKAXE_WOOD
            then (npc1\<lparr> pickaxe := True, state := IDLE \<rparr>,
                  unshift \<lparr> message = name npc1 @ '' crafted a Pickaxe.'', ltype = SUCCESS \<rparr>
                    (ns\<lparr> resources := (resources ns)(WOOD := resources ns WOOD - PICKAXE_WOOD) \<rparr>))
            else (npc1\<lparr> state := IDLE \<rparr>, ns))
         else (npc1, ns))"

text \<open>One increment of construction on the building at index \<open>i\<close>.\<close>

definition whack :: "nat \<Rightarrow> GameState \<Rightarrow> GameState" where
  "whack i ns =
     (let b = (buildings ns ! i)\<lparr> constructionProgress := constructionProgress (buildings ns ! i) + 10 \<rparr>
      in if constructionProgress b \<ge> maxConstructionProgress b
         then unshift \<lparr> message = name b @ '' construction complete!'', ltype = SUCCESS \<rparr>
                (ns\<lparr> buildings := (buildings ns)[i := b\<lparr> completed := True \<rparr>] \<rparr>)
         else ns\<lparr> buildings := (buildings ns)[i := b] \<rparr>)"

definition building_logic :: "GameState \<Rightarrow> NPC \<Rightarrow> NPC \<times> GameState" where
  "building_logic ns npc =
     (let npc1 = npc\<lparr> actionTimer := actionTimer npc - 1 \<rparr>
      in if actionTimer npc1 \<le> 0 then
           (let buildingIndex =
                  (case targetPos npc1 of
                     None \<Rightarrow> None
                   | Some t \<Rightarrow> findIndex (at_xy (px t) (py t)) (buildings ns));
                ns' = (case buildingIndex of None \<Rightarrow> ns | Some i \<Rightarrow> whack i ns);
                npc2 = npc1\<lparr> actionTimer := 10 \<rparr>
            in if (case buildingIndex of None \<Rightarrow> False | Some i \<Rightarrow> completed (buildings ns' ! i))
               then (npc2\<lparr> state := IDLE \<rparr>, ns')
               else (npc2, ns'))
         else (npc1, ns))"

definition farming_logic :: "rng \<Rightarrow> nat \<Rightarrow> GameState \<Rightarrow> NPC \<Rightarrow> NPC \<times> GameState \<times> nat" where
  "farming_logic rnd k ns npc =
     (let npc1 = npc\<lparr> actionTimer := actionTimer npc - 1 \<rparr>
      in if actionTimer npc1 \<le> 0 then
           (let ns' = ns\<lparr> resources := (resources ns)(FOOD := resources ns FOOD + 5) \<rparr>;
                npc2 = npc1\<lparr> actionTimer := 100 \<rparr>
            in (if random rnd k < 2 / 10 then npc2\<lparr> state := IDLE \<rparr> else npc2, ns', k + 1))
         else (npc1, ns, k))"

text \<open>
  The end of \<open>Gathering\<close>, shared by every tile: the draw for the log, then \<open>Idle\<close> with no
  target.
\<close>

definition finish_gather :: "rng \<Rightarrow> nat \<Rightarrow> GameState \<Rightarrow> NPC \<Rightarrow> string \<Rightarrow> string \<Rightarrow> NPC \<times> GameState \<times> nat" where
  "finish_gather rnd k ns npc gathered secondary =
     (npc\<lparr> state := IDLE, targetPos := None \<rparr>,
      (if random rnd k < 1 / 10 \<or> secondary \<noteq> []
       then unshift \<lparr> message = name npc @ '' gathered '' @ gathered @ secondary @ ''.'',
                       ltype = SUCCESS \<rparr> ns
       else ns),
      k + 1)"

definition gather_forest :: "rng \<Rightarrow> nat \<Rightarrow> GameState \<Rightarrow> NPC \<Rightarrow> Position \<Rightarrow> error + NPC \<times> GameState \<times> nat" where
  "gather_forest rnd k ns npc t =
     (let ns1 = ns\<lparr> resources := (resources ns)(WOOD := resources ns WOOD + 5) \<rparr>;
          apple = (random rnd k < 25 / 100);
          ns2 = (if apple then ns1\<lparr> resources := (resources ns1)(FOOD := resources ns1 FOOD + 3) \<rparr> else ns1);
          secondary = (if apple then '' & an apple'' else [])
      in if random rnd (k + 1) > 3 / 10 then
           (case write_tile (tiles ns2) (px t) (py t) GRASS of
              Inl e \<Rightarrow> Inl e
            | Inr m \<Rightarrow> Inr (finish_gather rnd (k + 2) (ns2\<lparr> tiles := m \<rparr>) npc ''wood'' secondary))
         else Inr (finish_gather rnd (k + 2) ns2 npc ''wood'' secondary))"

definition gather_mountain :: "rng \<Rightarrow> nat \<Rightarrow> GameState \<Rightarrow> NPC \<Rightarrow> Position \<Rightarrow> error + NPC \<times> GameState \<times> nat" where
  "gather_mountain rnd k ns npc t =
     (if pickaxe npc then
        (let ns1 = ns\<lparr> resources := (resources ns)(STONE := resources ns STONE + 5) \<rparr>
         in if random rnd k > 8 / 10 then
              (case write_tile (tiles ns1) (px t) (py t) FLOOR of
                 Inl e \<Rightarrow> Inl e
               | Inr m \<Rightarrow> Inr (finish_gather rnd (k + 1) (ns1\<lparr> tiles := m \<rparr>) npc ''stone'' []))
            else Inr (finish_gather rnd (k + 1) ns1 npc ''stone'' []))
      else Inr (npc\<lparr> thought := ''Need a pickaxe!'', state := IDLE \<rparr>, ns, k))"

definition gathering_logic :: "rng \<Rightarrow> nat \<Rightarrow> GameState \<Rightarrow> NPC \<Rightarrow> error + NPC \<times> GameState \<times> nat" where
  "gathering_logic rnd k ns npc =
     (let npc1 = npc\<lparr> actionTimer := actionTimer npc - 1 \<rparr>
      in if actionTimer npc1 \<le> 0 then
           (case targetPos npc1 of
              None \<Rightarrow> Inr (npc1\<lparr> state := IDLE, targetPos := None \<rparr>, ns, k)
            | Some t \<Rightarrow>
                (case read_tile (tiles ns) (px t) (py t) of
                   Inl e \<Rightarrow> Inl e
                 | Inr tile \<Rightarrow>
                     if tile = Some FOREST then gather_forest rnd k ns npc1 t
                     else if tile = Some MOUNTAIN then gather_mountain rnd k ns npc1 t
                     else Inr (finish_gather rnd k ns npc1 [] [])))
         else Inr (npc1, ns, k))"

definition update_npc :: "rng \<Rightarrow> nat \<Rightarrow> GameState \<Rightarrow> NPC \<Rightarrow> error + NPC \<times> GameState \<times> nat" where
  "update_npc rnd k ns npc =
     (if state npc = IDLE then
        (let (npc', k') = idle_logic rnd k ns npc in Inr (npc', ns, k'))
      else if state npc = MOVING then
        (case moving_logic ns npc of Inl e \<Rightarrow> Inl e | Inr npc' \<Rightarrow> Inr (npc', ns, k))
      else if state npc = CRAFTING then
        (let (npc', ns') = crafting_logic ns npc in Inr (npc', ns', k))
      else if state npc = BUILDING then
        (let (npc', ns') = building_logic ns npc in Inr (npc', ns', k))
      else if state npc = FARMING then Inr (farming_logic rnd k ns npc)
      else if state npc = GATHERING then gathering_logic rnd k ns npc
      else Inr (npc, ns, k))"

section \<open>The tick\<close>

text \<open>\<open>npcs.map\<close>: the agents in list order, each on the state the one before left.\<close>

fun update_npcs :: "rng \<Rightarrow> nat \<Rightarrow> GameState \<Rightarrow> NPC list \<Rightarrow> error + NPC list \<times> GameState \<times> nat" where
  "update_npcs rnd k ns [] = Inr ([], ns, k)"
| "update_npcs rnd k ns (npc # rest) =
     (case update_npc rnd k ns npc of
        Inl e \<Rightarrow> Inl e
      | Inr (npc', ns', k') \<Rightarrow>
          (case update_npcs rnd k' ns' rest of
             Inl e \<Rightarrow> Inl e
           | Inr (rest', ns'', k'') \<Rightarrow> Inr (npc' # rest', ns'', k'')))"

fun weather_name :: "Weather \<Rightarrow> string" where
  "weather_name SUNNY = ''SUNNY''"
| "weather_name RAIN = ''RAIN''"
| "weather_name NIGHT = ''NIGHT''"

definition change_weather :: "GameState \<Rightarrow> GameState" where
  "change_weather ns =
     (if js_rem (tickCount ns) 500 = 0 then
        (let w = (if weather ns = SUNNY then RAIN else if weather ns = RAIN then NIGHT else SUNNY)
         in ns\<lparr> weather := w,
                logs := take 50 (\<lparr> message = ''Weather changed to '' @ weather_name w, ltype = INFO \<rparr> # logs ns) \<rparr>)
      else ns)"

definition fate_gain :: "GameState \<Rightarrow> GameState" where
  "fate_gain ns =
     (if js_rem (tickCount ns) 100 = 0
      then ns\<lparr> resources := (resources ns)(FATE := resources ns FATE + 1) \<rparr>
      else ns)"

definition random_event :: "rng \<Rightarrow> nat \<Rightarrow> GameState \<Rightarrow> GameState" where
  "random_event rnd k ns =
     (if random rnd k < 5 / 1000 then
        (if random rnd (k + 1) < 1 / 2
         then unshift \<lparr> message = ''A mysterious bird flew over the colony.'', ltype = INFO \<rparr> ns
         else unshift \<lparr> message = ''Rats ate some food supplies!'', ltype = DANGER \<rparr>
                (ns\<lparr> resources := (resources ns)(FOOD := max 0 (resources ns FOOD - 2)) \<rparr>))
      else ns)"

definition updateGameState :: "rng \<Rightarrow> GameState \<Rightarrow> error + GameState" where
  "updateGameState rnd s =
     (let ns = fate_gain (change_weather (s\<lparr> tickCount := tickCount s + 1 \<rparr>))
      in case update_npcs rnd 0 ns (npcs ns) of
           Inl e \<Rightarrow> Inl e
         | Inr (npcs', ns', k) \<Rightarrow> Inr (random_event rnd k (ns'\<lparr> npcs := npcs' \<rparr>)))"

section \<open>Requests of the player (the application component)\<close>

definition handleEntitySelect :: "string option \<Rightarrow> GameState \<Rightarrow> GameState" where
  "handleEntitySelect i s = s\<lparr> selectedEntityId := i \<rparr>"

fun role_name :: "NPCRole \<Rightarrow> string" where
  "role_name WORKER = ''WORKER''"
| "role_name GUARD = ''GUARD''"
| "role_name EXPLORER = ''EXPLORER''"
| "role_name BUILDER = ''BUILDER''"
| "role_name FARMER = ''FARMER''"

definition roles :: "NPCRole list" where
  "roles = [WORKER, BUILDER, FARMER, GUARD]"

text \<open>\<open>Array.prototype.indexOf\<close>, with \<open>-1\<close> for a value that is not there.\<close>

definition indexOf :: "'a list \<Rightarrow> 'a \<Rightarrow> int" where
  "indexOf xs v = (case findIndex (\<lambda>a. a = v) xs of None \<Rightarrow> - 1 | Some i \<Rightarrow> int i)"

text \<open>A selected identifier is truthy when it is neither \<open>null\<close> nor the empty string.\<close>

definition selected :: "GameState \<Rightarrow> string option" where
  "selected s = (case selectedEntityId s of Some i \<Rightarrow> if i = [] then None else Some i | None \<Rightarrow> None)"

text \<open>The \<open>BLESS\<close> branch of \<open>handleAction\<close>, for the selected identifier \<open>i\<close>.\<close>

definition bless :: "GameState \<Rightarrow> string \<Rightarrow> GameState" where
  "bless s i =
     (if resources s FATE \<ge> 5 then
        (case findIndex (\<lambda>n. eid n = i) (npcs s) of
           None \<Rightarrow> s
         | Some npcIndex \<Rightarrow>
             (let n = npcs s ! npcIndex;
                  n' = n\<lparr> health := min (maxHealth n) (health n + 50),
                          thought := ''I feel divine power!'' \<rparr>
              in unshift \<lparr> message = ''You blessed '' @ name n' @ ''.'', ltype = SUCCESS \<rparr>
                   (s\<lparr> resources := (resources s)(FATE := resources s FATE - 5),
                       npcs := (npcs s)[npcIndex := n'] \<rparr>)))
      else s)"

text \<open>The \<open>CYCLE_ROLE\<close> branch of \<open>handleAction\<close>.\<close>

definition cycleRole :: "GameState \<Rightarrow> string \<Rightarrow> GameState" where
  "cycleRole s i =
     (case findIndex (\<lambda>n. eid n = i) (npcs s) of
        None \<Rightarrow> s
      | Some npcIndex \<Rightarrow>
          (let n = npcs s ! npcIndex;
               currentRoleIndex = indexOf roles (role n);
               nextRole = roles ! nat (js_rem (currentRoleIndex + 1) (int (length roles)));
               n' = n\<lparr> role := nextRole, state := IDLE, targetPos := None \<rparr>
           in unshift \<lparr> message = name n' @ '' is now a '' @ role_name nextRole @ ''.'', ltype = INFO \<rparr>
                (s\<lparr> npcs := (npcs s)[npcIndex := n'] \<rparr>)))"

definition handleAction :: "string \<Rightarrow> GameState \<Rightarrow> GameState" where
  "handleAction action s =
     (case selected s of
        None \<Rightarrow> s
      | Some i \<Rightarrow>
          if action = ''BLESS'' then bless s i
          else if action = ''CYCLE_ROLE'' then cycleRole s i
          else s)"

section \<open>Reachable states\<close>

text \<open>
  The states of a game: genesis, then ticks, placements that succeed, selections and
  actions, with any draws and any clock readings.
\<close>

inductive reachable :: "GameState \<Rightarrow> bool" where
  genesis: "createInitialState nm seedInput rnd now = Inr s \<Longrightarrow> reachable s"
| tick: "reachable s \<Longrightarrow> updateGameState rnd s = Inr s' \<Longrightarrow> reachable s'"
| place: "reachable s \<Longrightarrow> placeBuilding t0 s cx cy t = Placed s' \<Longrightarrow> reachable s'"
| select: "reachable s \<Longrightarrow> reachable (handleEntitySelect i s)"
| action: "reachable s \<Longrightarrow> reachable (handleAction a s)"

section \<open>Example states\<close>

text \<open>
  Small states and agents on which the theorems below are instantiated. \<open>plain\<close> is a map
  of the size of the game with the same tile everywhere.
\<close>

definition plain :: "TileType \<Rightarrow> TileType list list" where
  "plain t = replicate MAP_HEIGHT (replicate MAP_WIDTH t)"

definition colony :: "TileType list list \<Rightarrow> NPC list \<Rightarrow> Building list \<Rightarrow> (ResourceType \<Rightarrow> int) \<Rightarrow> GameState" where
  "colony m ns bs res =
     \<lparr> colonyName = ''Ironhold'', seed = 42, tiles = m,
       width = int MAP_WIDTH, height = int MAP_HEIGHT,
       npcs = ns, buildings = bs, resources = res, logs = [],
       tickCount = 0, weather = SUNNY, epoch = 1, selectedEntityId = None \<rparr>"

definition dwarf :: "string \<Rightarrow> NPCRole \<Rightarrow> NPCState \<Rightarrow> int \<times> int \<Rightarrow> (int \<times> int) option \<Rightarrow> int \<Rightarrow> NPC" where
  "dwarf i r st p tgt timer =
     \<lparr> eid = i, name = ''Bimli'', pos = \<lparr> px = fst p, py = snd p \<rparr>,
       state = st, targetPos = map_option (\<lambda>q. \<lparr> px = fst q, py = snd q \<rparr>) tgt,
       health = 100, maxHealth = 100, role = r, pickaxe = False, sword = False,
       actionTimer = timer, thought = ''New world!'' \<rparr>"

section \<open>Predicates used in the statements\<close>

text \<open>A map of \<open>h\<close> rows of \<open>w\<close> tiles.\<close>

definition grid :: "nat \<Rightarrow> nat \<Rightarrow> TileType list list \<Rightarrow> bool" where
  "grid h w m = (length m = h \<and> list_all (\<lambda>r. length r = w) m)"

text \<open>Sequences of draws and clock readings that are constant.\<close>

definition draws :: "rat \<Rightarrow> rng" where
  "draws v k = v"

definition clock0 :: "nat \<Rightarrow> nat" where
  "clock0 i = 0"

text \<open>A ledger with the same amount of every resource.\<close>

definition purse :: "int \<Rightarrow> ResourceType \<Rightarrow> int" where
  "purse v r = v"

text \<open>No count of the ledger is negative.\<close>

definition solvent :: "(ResourceType \<Rightarrow> int) \<Rightarrow> bool" where
  "solvent res = (0 \<le> res WOOD \<and> 0 \<le> res STONE \<and> 0 \<le> res FOOD \<and> 0 \<le> res FATE)"

text \<open>The draws \<open>v0\<close> first and \<open>v\<close> ever after.\<close>

definition first_then :: "rat \<Rightarrow> rat \<Rightarrow> rng" where
  "first_then v0 v k = (if k = 0 then v0 else v)"



text \<open>
  What the double loop of \<open>findNearestTile\<close> holds after it has visited the cells \<open>S\<close>:
  nothing while no cell of \<open>S\<close> has the tile \<open>t\<close>, and otherwise a cell of \<open>S\<close> with the tile
  \<open>t\<close>, its distance from \<open>start\<close>, and no cell of \<open>S\<close> with the tile \<open>t\<close> is nearer.
\<close>

definition best_of :: "TileType list list \<Rightarrow> Position \<Rightarrow> TileType \<Rightarrow> (nat \<times> nat) set \<Rightarrow> (Position \<times> int) option \<Rightarrow> bool" where
  "best_of m start t S acc =
     (case acc of
        None \<Rightarrow> (\<forall>c \<in> S. tile_at m (int (fst c)) (int (snd c)) \<noteq> Some t)
      | Some (p, d) \<Rightarrow>
          d = distance start p
          \<and> (\<exists>c \<in> S. p = \<lparr> px = int (fst c), py = int (snd c) \<rparr>)
          \<and> tile_at m (px p) (py p) = Some t
          \<and> (\<forall>c \<in> S. tile_at m (int (fst c)) (int (snd c)) = Some t
                \<longrightarrow> d \<le> distance start \<lparr> px = int (fst c), py = int (snd c) \<rparr>))"

text \<open>Draws that send a wandering agent one tile up: 1/2, 1/2, 1/4, then 1/2.\<close>

definition detour :: rng where
  "detour k = (if k = 2 then 1 / 4 else 1 / 2)"

text \<open>A Grass map with two trees, at (3, 4) and at (10, 4).\<close>

definition grove :: "TileType list list" where
  "grove = (plain GRASS)[4 := (replicate MAP_WIDTH GRASS)[3 := FOREST, 10 := FOREST]]"


text \<open>A building whose flag \<open>completed\<close> agrees with its progress, which is not negative.\<close>

definition sound_building :: "Building \<Rightarrow> bool" where
  "sound_building b =
     (0 \<le> constructionProgress b
      \<and> (completed b \<longleftrightarrow> constructionProgress b \<ge> maxConstructionProgress b))"

section \<open>Map generation: the centre block\<close>

lemma grid_nth: "grid h w m \<Longrightarrow> i < h \<Longrightarrow> length (m ! i) = w"
  by (simp add: grid_def list_all_length)

lemma tile_at_grid:
  "grid h w m \<Longrightarrow> tile_at m cx cy =
     (if 0 \<le> cy \<and> cy < int h \<and> 0 \<le> cx \<and> cx < int w then Some (m ! nat cy ! nat cx) else None)"
  by (auto simp: tile_at_def grid_nth grid_def)

lemma length_gen_row: "length (fst (gen_row n sd)) = n"
proof (induction n arbitrary: sd)
  case 0
  then show ?case by simp
next
  case (Suc n)
  obtain ts s2 where "gen_row n (next_seed sd) = (ts, s2)"
    by (cases "gen_row n (next_seed sd)")
  with Suc [of "next_seed sd"] show ?case by simp
qed

lemma grid_gen_rows: "grid h w (gen_rows h w sd)"
proof (induction h arbitrary: sd)
  case 0
  then show ?case by (simp add: grid_def)
next
  case (Suc h)
  obtain r sd' where r: "gen_row w sd = (r, sd')" by (cases "gen_row w sd")
  then have "length r = w" using length_gen_row [of w sd] by simp
  with Suc [of sd'] r show ?case by (simp add: grid_def)
qed

lemma write_tile_grid:
  assumes "grid h w m" "0 \<le> cy" "cy < int h"
  shows "\<exists>m'. write_tile m cx cy v = Inr m' \<and> grid h w m'
           \<and> (\<forall>tx ty. tile_at m' tx ty =
                 (if tx = cx \<and> ty = cy \<and> 0 \<le> cx \<and> cx < int w then Some v else tile_at m tx ty))"
proof (cases "0 \<le> cx \<and> cx < int w")
  case False
  with assms show ?thesis
    by (auto simp: write_tile_def grid_nth grid_def)
next
  case True
  let ?m' = "m[nat cy := (m ! nat cy)[nat cx := v]]"
  have len: "length m = h" using assms by (simp add: grid_def)
  have w: "write_tile m cx cy v = Inr ?m'"
    using True assms by (simp add: write_tile_def grid_nth len)
  have g: "grid h w ?m'"
    using assms by (auto simp: grid_def list_all_length nth_list_update)
  have "tile_at ?m' tx ty =
          (if tx = cx \<and> ty = cy \<and> 0 \<le> cx \<and> cx < int w then Some v else tile_at m tx ty)" for tx ty
  proof (cases "0 \<le> ty \<and> ty < int h \<and> 0 \<le> tx \<and> tx < int w")
    case False
    then show ?thesis
      using True assms(2,3) by (auto simp: tile_at_grid [OF g] tile_at_grid [OF assms(1)])
  next
    case inside: True
    have lw: "length (m ! nat cy) = w" using assms by (simp add: grid_nth)
    have ny: "nat ty < length m" "nat cy < length m" using inside assms(2,3) len by auto
    have nx: "nat tx < w" "nat cx < w" using inside True by auto
    have "?m' ! nat ty ! nat tx = (if tx = cx \<and> ty = cy then v else m ! nat ty ! nat tx)"
    proof (cases "ty = cy")
      case same: True
      have "?m' ! nat ty = (m ! nat cy)[nat cx := v]" using same ny by simp
      moreover have "(m ! nat cy)[nat cx := v] ! nat tx = (if tx = cx then v else m ! nat cy ! nat tx)"
      proof (cases "tx = cx")
        case True
        then show ?thesis using nx lw by simp
      next
        case False
        then have "nat tx \<noteq> nat cx" using inside \<open>0 \<le> cx \<and> cx < int w\<close> by auto
        then show ?thesis using False by simp
      qed
      ultimately show ?thesis using same by simp
    next
      case False
      then have "nat ty \<noteq> nat cy" using inside assms(2) by auto
      then have "?m' ! nat ty = m ! nat ty" by simp
      then show ?thesis using False by simp
    qed
    then show ?thesis
      using inside True by (simp add: tile_at_grid [OF g] tile_at_grid [OF assms(1)])
  qed
  with w g show ?thesis by blast
qed

lemma clear_row_grid:
  assumes "0 \<le> cy" "cy < int h"
  shows "grid h w m \<Longrightarrow> \<exists>m'. clear_row m cy cxs = Inr m' \<and> grid h w m'
           \<and> (\<forall>tx ty. tile_at m' tx ty =
                 (if ty = cy \<and> tx \<in> set cxs \<and> 0 \<le> tx \<and> tx < int w then Some GRASS else tile_at m tx ty))"
proof (induction cxs arbitrary: m)
  case Nil
  then show ?case by simp
next
  case (Cons cx cxs)
  from write_tile_grid [OF Cons.prems assms, of cx GRASS]
  obtain m1 where m1: "write_tile m cx cy GRASS = Inr m1" "grid h w m1"
    "\<And>tx ty. tile_at m1 tx ty =
        (if tx = cx \<and> ty = cy \<and> 0 \<le> cx \<and> cx < int w then Some GRASS else tile_at m tx ty)"
    by blast
  from Cons.IH [OF m1(2)]
  obtain m2 where m2: "clear_row m1 cy cxs = Inr m2" "grid h w m2"
    "\<And>tx ty. tile_at m2 tx ty =
        (if ty = cy \<and> tx \<in> set cxs \<and> 0 \<le> tx \<and> tx < int w then Some GRASS else tile_at m1 tx ty)"
    by blast
  have "clear_row m cy (cx # cxs) = Inr m2" using m1(1) m2(1) by simp
  moreover have "tile_at m2 tx ty =
        (if ty = cy \<and> tx \<in> set (cx # cxs) \<and> 0 \<le> tx \<and> tx < int w then Some GRASS else tile_at m tx ty)" for tx ty
    by (auto simp: m2(3) m1(3))
  ultimately show ?case using m2(2) by blast
qed

lemma clear_block_grid:
  "grid h w m \<Longrightarrow> \<forall>cy \<in> set cys. 0 \<le> cy \<and> cy < int h \<Longrightarrow>
     \<exists>m'. clear_block m cys cxs = Inr m' \<and> grid h w m'
           \<and> (\<forall>tx ty. tile_at m' tx ty =
                 (if ty \<in> set cys \<and> tx \<in> set cxs \<and> 0 \<le> tx \<and> tx < int w then Some GRASS else tile_at m tx ty))"
proof (induction cys arbitrary: m)
  case Nil
  then show ?case by simp
next
  case (Cons cy cys)
  have cy: "0 \<le> cy" "cy < int h" using Cons.prems(2) by auto
  from clear_row_grid [OF cy Cons.prems(1), of cxs]
  obtain m1 where m1: "clear_row m cy cxs = Inr m1" "grid h w m1"
    "\<And>tx ty. tile_at m1 tx ty =
        (if ty = cy \<and> tx \<in> set cxs \<and> 0 \<le> tx \<and> tx < int w then Some GRASS else tile_at m tx ty)"
    by blast
  have "\<forall>c \<in> set cys. 0 \<le> c \<and> c < int h" using Cons.prems(2) by auto
  from Cons.IH [OF m1(2) this]
  obtain m2 where m2: "clear_block m1 cys cxs = Inr m2" "grid h w m2"
    "\<And>tx ty. tile_at m2 tx ty =
        (if ty \<in> set cys \<and> tx \<in> set cxs \<and> 0 \<le> tx \<and> tx < int w then Some GRASS else tile_at m1 tx ty)"
    by blast
  have "clear_block m (cy # cys) cxs = Inr m2" using m1(1) m2(1) by simp
  moreover have "tile_at m2 tx ty =
        (if ty \<in> set (cy # cys) \<and> tx \<in> set cxs \<and> 0 \<le> tx \<and> tx < int w then Some GRASS else tile_at m tx ty)" for tx ty
    by (auto simp: m2(3) m1(3))
  ultimately show ?case using m2(2) by blast
qed

lemma generateMap_centre:
  assumes "7 \<le> w" "7 \<le> h"
  shows "\<exists>m. generateMap w h sd = Inr m \<and> grid h w m
           \<and> (\<forall>tx ty. \<bar>tx - int w div 2\<bar> \<le> 3 \<and> \<bar>ty - int h div 2\<bar> \<le> 3 \<longrightarrow> tile_at m tx ty = Some GRASS)"
proof -
  let ?cx = "int w div 2" and ?cy = "int h div 2"
  have rows: "\<forall>cy \<in> set [?cy - 3 .. ?cy + 3]. 0 \<le> cy \<and> cy < int h"
    using assms(2) by auto
  from clear_block_grid [OF grid_gen_rows rows, of w sd "[?cx - 3 .. ?cx + 3]"]
  obtain m where m: "clear_block (gen_rows h w sd) [?cy - 3 .. ?cy + 3] [?cx - 3 .. ?cx + 3] = Inr m"
    "grid h w m"
    "\<And>tx ty. tile_at m tx ty =
        (if ty \<in> set [?cy - 3 .. ?cy + 3] \<and> tx \<in> set [?cx - 3 .. ?cx + 3] \<and> 0 \<le> tx \<and> tx < int w
         then Some GRASS else tile_at (gen_rows h w sd) tx ty)"
    by blast
  have "generateMap w h sd = Inr m" using m(1) by (simp add: generateMap_def Let_def)
  moreover have "tile_at m tx ty = Some GRASS"
    if "\<bar>tx - ?cx\<bar> \<le> 3 \<and> \<bar>ty - ?cy\<bar> \<le> 3" for tx ty
  proof -
    have "0 \<le> tx \<and> tx < int w" using that assms(1) by auto
    with that show ?thesis by (auto simp: m(3))
  qed
  ultimately show ?thesis using m(2) by blast
qed

lemma createInitialState_Inr:
  "\<exists>s. createInitialState nm seedInput rnd now = Inr s
       \<and> generateMap MAP_WIDTH MAP_HEIGHT (seed s) = Inr (tiles s)
       \<and> grid MAP_HEIGHT MAP_WIDTH (tiles s)
       \<and> (\<forall>tx ty. \<bar>tx - 25\<bar> \<le> 3 \<and> \<bar>ty - 20\<bar> \<le> 3 \<longrightarrow> tile_at (tiles s) tx ty = Some GRASS)
       \<and> buildings s = [base_building]
       \<and> resources s = (\<lambda>r. 0)(FOOD := 20)
       \<and> logs s = [\<lparr> message = ''The expedition has arrived.'', ltype = INFO \<rparr>]
       \<and> map eid (npcs s) = map (\<lambda>i. ''npc_'' @ show_nat (now i) @ ''_'' @ show_nat i) [0..<5]
       \<and> selectedEntityId s = None"
proof -
  obtain sd k where sk: "(case seedInput of Some v \<Rightarrow> (v, 0) | None \<Rightarrow> (random_below rnd 0 1000000, 1)) = (sd, k::nat)"
    by (cases "case seedInput of Some v \<Rightarrow> (v, 0::nat) | None \<Rightarrow> (random_below rnd 0 1000000, 1)")
  have "7 \<le> MAP_WIDTH" "7 \<le> MAP_HEIGHT" by (simp_all add: MAP_WIDTH_def MAP_HEIGHT_def)
  from generateMap_centre [OF this, of sd]
  obtain m where m: "generateMap MAP_WIDTH MAP_HEIGHT sd = Inr m" "grid MAP_HEIGHT MAP_WIDTH m"
    "\<And>tx ty. \<bar>tx - int MAP_WIDTH div 2\<bar> \<le> 3 \<and> \<bar>ty - int MAP_HEIGHT div 2\<bar> \<le> 3 \<Longrightarrow> tile_at m tx ty = Some GRASS"
    by blast
  have c: "int MAP_WIDTH div 2 = 25" "int MAP_HEIGHT div 2 = 20"
    by (simp_all add: MAP_WIDTH_def MAP_HEIGHT_def)
  show ?thesis
    using m sk unfolding c
    by (simp add: createInitialState_def spawn_npc_def comp_def)
qed

text \<open>
  C8. Map generation is a function of the width, the height and the seed alone (it takes
  no draw of \<open>Math.random\<close>), and for every seed the block of seven by seven tiles
  around the middle of the map is Grass after generation, whatever the generator drew
  for those cells. The block lies inside the map when the map has at least seven rows
  and seven columns, as the map of the game (50 by 40) has; genesis installs the map
  generated from its seed.
\<close>

theorem generateMap_centre_grass:
  "(7 \<le> w \<and> 7 \<le> h \<longrightarrow>
      (\<exists>m. generateMap w h sd = Inr m \<and> grid h w m
           \<and> (\<forall>tx ty. \<bar>tx - int w div 2\<bar> \<le> 3 \<and> \<bar>ty - int h div 2\<bar> \<le> 3
                 \<longrightarrow> tile_at m tx ty = Some GRASS)))
   \<and> (\<exists>s. createInitialState nm seedInput rnd now = Inr s
          \<and> generateMap MAP_WIDTH MAP_HEIGHT (seed s) = Inr (tiles s)
          \<and> (\<forall>tx ty. \<bar>tx - 25\<bar> \<le> 3 \<and> \<bar>ty - 20\<bar> \<le> 3 \<longrightarrow> tile_at (tiles s) tx ty = Some GRASS))"
  using generateMap_centre [of w h sd] createInitialState_Inr [of nm seedInput rnd now]
  by blast

theorem generateMap_centre_grass_witness:
  "tile_of_rand (seed_value (next_seed 0)) = WATER
   \<and> (\<exists>m. generateMap 7 7 0 = Inr m \<and> tile_at m 0 0 = Some GRASS)
   \<and> (\<exists>s. createInitialState ''Ironhold'' (Some 42) (draws 0) clock0 = Inr s
          \<and> seed s = 42 \<and> tile_at (tiles s) 22 23 = Some GRASS)"
proof -
  note inst = generateMap_centre_grass [of 7 7 0 "''Ironhold''" "Some 42" "draws 0" clock0]
  have "tile_of_rand (seed_value (next_seed 0)) = WATER"
    by (simp add: tile_of_rand_def seed_value_def next_seed_def js_rem_def)
  moreover from inst obtain m where "generateMap 7 7 0 = Inr m"
    "\<forall>tx ty. \<bar>tx - int 7 div 2\<bar> \<le> 3 \<and> \<bar>ty - int 7 div 2\<bar> \<le> 3 \<longrightarrow> tile_at m tx ty = Some GRASS"
    by auto
  then have "\<exists>m. generateMap 7 7 0 = Inr m \<and> tile_at m 0 0 = Some GRASS"
    by simp
  moreover from inst obtain s where s: "createInitialState ''Ironhold'' (Some 42) (draws 0) clock0 = Inr s"
    "\<forall>tx ty. \<bar>tx - 25\<bar> \<le> 3 \<and> \<bar>ty - 20\<bar> \<le> 3 \<longrightarrow> tile_at (tiles s) tx ty = Some GRASS"
    by auto
  then have "seed s = 42" "tile_at (tiles s) 22 23 = Some GRASS"
    by (auto simp: createInitialState_def split: sum.splits)
  with s(1) have "\<exists>s. createInitialState ''Ironhold'' (Some 42) (draws 0) clock0 = Inr s
          \<and> seed s = 42 \<and> tile_at (tiles s) 22 23 = Some GRASS"
    by blast
  ultimately show ?thesis by blast
qed

section \<open>Construction requests\<close>

lemma tile_at_plain:
  "tile_at (plain t) cx cy = (if 0 \<le> cx \<and> cx < 50 \<and> 0 \<le> cy \<and> cy < 40 then Some t else None)"
  by (auto simp: tile_at_def plain_def MAP_WIDTH_def MAP_HEIGHT_def)

lemma read_tile_plain:
  "read_tile (plain t) cx cy = (if 0 \<le> cy \<and> cy < 40 then Inr (tile_at (plain t) cx cy) else Inl TypeError)"
  by (simp add: read_tile_def plain_def MAP_HEIGHT_def)

text \<open>
  C3. \<open>placeBuilding\<close> at coordinates whose tile is Water or Mountain is rejected, for
  every state, every kind of structure and every ledger. The checks run in the order
  bounds, collision, terrain, resources, and the first that fails is the one that
  rejects; a request is rejected exactly when one of them fails. After any rejection
  the game state the application holds is the one it held before: ledger, buildings,
  log and map are untouched.
\<close>

theorem placeBuilding_rejection:
  "(tile_at (tiles s) cx cy = Some WATER \<or> tile_at (tiles s) cx cy = Some MOUNTAIN
      \<longrightarrow> (\<exists>r. placeBuilding now s cx cy t = Rejected r))
   \<and> (placeBuilding now s cx cy t = Rejected r \<longrightarrow>
        handlePlaceBuilding now s (Some t) cx cy = Inr s
        \<and> r = (if cx < 0 \<or> cx \<ge> int MAP_WIDTH \<or> cy < 0 \<or> cy \<ge> int MAP_HEIGHT then OutOfBounds
               else if list_ex (at_xy cx cy) (buildings s) then Occupied
               else if tile_at (tiles s) cx cy = Some WATER \<or> tile_at (tiles s) cx cy = Some MOUNTAIN
                    then BadTerrain
               else Insufficient))
   \<and> ((\<exists>r. placeBuilding now s cx cy t = Rejected r) \<longleftrightarrow>
        cx < 0 \<or> cx \<ge> int MAP_WIDTH \<or> cy < 0 \<or> cy \<ge> int MAP_HEIGHT
        \<or> list_ex (at_xy cx cy) (buildings s)
        \<or> (cy < int (length (tiles s))
            \<and> (tile_at (tiles s) cx cy = Some WATER \<or> tile_at (tiles s) cx cy = Some MOUNTAIN
                \<or> short_of (BUILDING_COSTS t) (resources s) WOOD
                \<or> short_of (BUILDING_COSTS t) (resources s) STONE
                \<or> short_of (BUILDING_COSTS t) (resources s) FOOD)))"
proof (intro conjI)
  show "tile_at (tiles s) cx cy = Some WATER \<or> tile_at (tiles s) cx cy = Some MOUNTAIN
      \<longrightarrow> (\<exists>r. placeBuilding now s cx cy t = Rejected r)"
    by (auto simp: placeBuilding_def read_tile_def tile_at_def split: if_splits)
  show "placeBuilding now s cx cy t = Rejected r \<longrightarrow>
        handlePlaceBuilding now s (Some t) cx cy = Inr s
        \<and> r = (if cx < 0 \<or> cx \<ge> int MAP_WIDTH \<or> cy < 0 \<or> cy \<ge> int MAP_HEIGHT then OutOfBounds
               else if list_ex (at_xy cx cy) (buildings s) then Occupied
               else if tile_at (tiles s) cx cy = Some WATER \<or> tile_at (tiles s) cx cy = Some MOUNTAIN
                    then BadTerrain
               else Insufficient)"
    by (auto simp: placeBuilding_def handlePlaceBuilding_def read_tile_def Let_def
             split: if_splits sum.splits)
  show "(\<exists>r. placeBuilding now s cx cy t = Rejected r) \<longleftrightarrow>
        cx < 0 \<or> cx \<ge> int MAP_WIDTH \<or> cy < 0 \<or> cy \<ge> int MAP_HEIGHT
        \<or> list_ex (at_xy cx cy) (buildings s)
        \<or> (cy < int (length (tiles s))
            \<and> (tile_at (tiles s) cx cy = Some WATER \<or> tile_at (tiles s) cx cy = Some MOUNTAIN
                \<or> short_of (BUILDING_COSTS t) (resources s) WOOD
                \<or> short_of (BUILDING_COSTS t) (resources s) STONE
                \<or> short_of (BUILDING_COSTS t) (resources s) FOOD))"
    by (auto simp: placeBuilding_def read_tile_def Let_def split: if_splits sum.splits)
qed

theorem placeBuilding_rejection_witness:
  "tile_at (tiles (colony (plain WATER) [] [] (purse 1000))) 3 4 = Some WATER
   \<and> placeBuilding 0 (colony (plain WATER) [] [] (purse 1000)) 3 4 HOUSE = Rejected BadTerrain
   \<and> handlePlaceBuilding 0 (colony (plain WATER) [] [] (purse 1000)) (Some HOUSE) 3 4
       = Inr (colony (plain WATER) [] [] (purse 1000))"
  using placeBuilding_rejection [of "colony (plain WATER) [] [] (purse 1000)" 3 4 0 HOUSE BadTerrain]
  by (simp add: colony_def tile_at_plain read_tile_plain placeBuilding_def MAP_WIDTH_def MAP_HEIGHT_def)

text \<open>
  C4. The claim is that a \<open>Base\<close> can never be placed. The cost table of \<open>Base\<close> is
  empty, so no resource check fails: at genesis (seed 42), a \<open>Base\<close> requested on the
  free Grass tile (24, 20) next to the Town Hall is built, at no cost, and the colony
  has two buildings of kind \<open>Base\<close>.
\<close>

theorem placeBuilding_base_is_built:
  "\<exists>s0 s1. createInitialState ''Ironhold'' (Some 42) (draws 0) clock0 = Inr s0
     \<and> placeBuilding 0 s0 24 20 BASE = Placed s1
     \<and> map structureType (buildings s1) = [BASE, BASE]
     \<and> resources s1 = resources s0"
proof -
  from createInitialState_Inr [of "''Ironhold''" "Some 42" "draws 0" clock0]
  obtain s0 where s0: "createInitialState ''Ironhold'' (Some 42) (draws 0) clock0 = Inr s0"
    "grid MAP_HEIGHT MAP_WIDTH (tiles s0)"
    "\<forall>tx ty. \<bar>tx - 25\<bar> \<le> 3 \<and> \<bar>ty - 20\<bar> \<le> 3 \<longrightarrow> tile_at (tiles s0) tx ty = Some GRASS"
    "buildings s0 = [base_building]"
    by blast
  have t: "tile_at (tiles s0) 24 20 = Some GRASS" using s0(3) by simp
  have r: "read_tile (tiles s0) 24 20 = Inr (Some GRASS)"
    using s0(2) t by (simp add: read_tile_def grid_def MAP_HEIGHT_def)
  have "\<exists>s1. placeBuilding 0 s0 24 20 BASE = Placed s1
     \<and> map structureType (buildings s1) = [BASE, BASE]
     \<and> resources s1 = resources s0"
    using r s0(4)
    by (simp add: placeBuilding_def MAP_WIDTH_def MAP_HEIGHT_def at_xy_def base_building_def
                  short_of_def deduct_def)
  then obtain s1 where "placeBuilding 0 s0 24 20 BASE = Placed s1"
    "map structureType (buildings s1) = [BASE, BASE]" "resources s1 = resources s0"
    by auto
  with s0(1) show ?thesis
    by (intro exI [of _ s0] exI [of _ s1]) simp
qed

section \<open>Single agents and requests of the player\<close>

lemma findIndex_Some:
  "findIndex P xs = Some j \<Longrightarrow> j < length xs \<and> P (xs ! j)"
proof (induction xs arbitrary: j)
  case Nil
  then show ?case by simp
next
  case (Cons a as)
  show ?case
  proof (cases "P a")
    case True
    with Cons.prems show ?thesis by simp
  next
    case False
    with Cons.prems obtain j' where "findIndex P as = Some j'" "j = Suc j'" by auto
    with Cons.IH [of j'] show ?thesis by simp
  qed
qed

lemma next_role:
  "roles ! nat (js_rem (indexOf roles r + 1) (int (length roles))) =
     (case r of
        WORKER \<Rightarrow> BUILDER | BUILDER \<Rightarrow> FARMER | FARMER \<Rightarrow> GUARD
      | GUARD \<Rightarrow> WORKER | EXPLORER \<Rightarrow> WORKER)"
  by (cases r) (simp_all add: roles_def indexOf_def js_rem_def)

lemma npcs_cycleRole:
  assumes "findIndex (\<lambda>n. eid n = i) (npcs s) = Some j"
  shows "npcs (cycleRole s i) =
           (npcs s)[j := (npcs s ! j)\<lparr> role := roles ! nat (js_rem (indexOf roles (role (npcs s ! j)) + 1)
                                                     (int (length roles))),
                                       state := IDLE, targetPos := None \<rparr>]"
  using assms by (simp add: cycleRole_def unshift_def Let_def)

text \<open>
  C9. \<open>CYCLE_ROLE\<close> on the selected agent moves its role one step along Worker,
  Builder, Farmer, Guard and back to Worker; a role outside that cycle (Explorer) is not
  found in the list, the next index computes to 0, and the agent becomes a Worker. In
  every case the new role is one of the four, the agent is Idle and its target is
  cleared.
\<close>

theorem cycleRole_roles:
  assumes "selected s = Some i" and "findIndex (\<lambda>n. eid n = i) (npcs s) = Some j"
  shows "role (npcs (handleAction ''CYCLE_ROLE'' s) ! j) =
           (case role (npcs s ! j) of
              WORKER \<Rightarrow> BUILDER | BUILDER \<Rightarrow> FARMER | FARMER \<Rightarrow> GUARD
            | GUARD \<Rightarrow> WORKER | EXPLORER \<Rightarrow> WORKER)
         \<and> role (npcs (handleAction ''CYCLE_ROLE'' s) ! j) \<in> {WORKER, BUILDER, FARMER, GUARD}
         \<and> state (npcs (handleAction ''CYCLE_ROLE'' s) ! j) = IDLE
         \<and> targetPos (npcs (handleAction ''CYCLE_ROLE'' s) ! j) = None"
proof -
  have j: "j < length (npcs s)" using findIndex_Some [OF assms(2)] by simp
  have h: "handleAction ''CYCLE_ROLE'' s = cycleRole s i"
    using assms(1) by (simp add: handleAction_def)
  have r: "role (npcs (cycleRole s i) ! j) =
           (case role (npcs s ! j) of
              WORKER \<Rightarrow> BUILDER | BUILDER \<Rightarrow> FARMER | FARMER \<Rightarrow> GUARD
            | GUARD \<Rightarrow> WORKER | EXPLORER \<Rightarrow> WORKER)"
    using j by (simp add: npcs_cycleRole [OF assms(2)] next_role)
  have "role (npcs (cycleRole s i) ! j) \<in> {WORKER, BUILDER, FARMER, GUARD}"
    unfolding r by (cases "role (npcs s ! j)") simp_all
  moreover have "state (npcs (cycleRole s i) ! j) = IDLE" "targetPos (npcs (cycleRole s i) ! j) = None"
    using j by (simp_all add: npcs_cycleRole [OF assms(2)])
  ultimately show ?thesis using r h by simp
qed

theorem cycleRole_roles_witness:
  "role (npcs (handleAction ''CYCLE_ROLE''
           (handleEntitySelect (Some ''e'')
              (colony (plain GRASS) [dwarf ''e'' EXPLORER MOVING (3, 3) (Some (5, 5)) 0] [] (purse 0)))) ! 0)
     = WORKER
   \<and> state (npcs (handleAction ''CYCLE_ROLE''
           (handleEntitySelect (Some ''e'')
              (colony (plain GRASS) [dwarf ''e'' EXPLORER MOVING (3, 3) (Some (5, 5)) 0] [] (purse 0)))) ! 0)
     = IDLE
   \<and> targetPos (npcs (handleAction ''CYCLE_ROLE''
           (handleEntitySelect (Some ''e'')
              (colony (plain GRASS) [dwarf ''e'' EXPLORER MOVING (3, 3) (Some (5, 5)) 0] [] (purse 0)))) ! 0)
     = None"
  using cycleRole_roles [of "handleEntitySelect (Some ''e'')
              (colony (plain GRASS) [dwarf ''e'' EXPLORER MOVING (3, 3) (Some (5, 5)) 0] [] (purse 0))" "''e''" 0]
  by (simp add: handleEntitySelect_def colony_def dwarf_def selected_def)

text \<open>
  C6, as amended. A Moving agent whose Manhattan distance to its target exceeds 1 changes
  exactly one coordinate by exactly 1 in a tick, towards the target (the distance falls
  by 1): the \<open>x\<close> coordinate when \<open>|dx| > |dy|\<close>, and the \<open>y\<close> coordinate otherwise, so
  that a tie \<open>|dx| = |dy|\<close> steps along the \<open>y\<close> axis. Nothing else of the agent or of the
  world changes.
\<close>

theorem moving_step:
  assumes "state npc = MOVING" and "targetPos npc = Some t" and "distance (pos npc) t > 1"
  shows "update_npc rnd k ns npc = Inr (npc\<lparr> pos := moveTowards npc t \<rparr>, ns, k)
         \<and> (\<bar>px t - px (pos npc)\<bar> > \<bar>py t - py (pos npc)\<bar> \<longrightarrow>
              px (moveTowards npc t) = px (pos npc) + (if px t > px (pos npc) then 1 else - 1)
              \<and> py (moveTowards npc t) = py (pos npc))
         \<and> (\<bar>px t - px (pos npc)\<bar> \<le> \<bar>py t - py (pos npc)\<bar> \<longrightarrow>
              px (moveTowards npc t) = px (pos npc)
              \<and> py (moveTowards npc t) = py (pos npc) + (if py t > py (pos npc) then 1 else - 1))
         \<and> distance (moveTowards npc t) t = distance (pos npc) t - 1"
proof (intro conjI)
  show "update_npc rnd k ns npc = Inr (npc\<lparr> pos := moveTowards npc t \<rparr>, ns, k)"
    using assms by (simp add: update_npc_def moving_logic_def)
  show "\<bar>px t - px (pos npc)\<bar> > \<bar>py t - py (pos npc)\<bar> \<longrightarrow>
              px (moveTowards npc t) = px (pos npc) + (if px t > px (pos npc) then 1 else - 1)
              \<and> py (moveTowards npc t) = py (pos npc)"
    by (auto simp: moveTowards_def js_sign_def Let_def)
  show "\<bar>px t - px (pos npc)\<bar> \<le> \<bar>py t - py (pos npc)\<bar> \<longrightarrow>
              px (moveTowards npc t) = px (pos npc)
              \<and> py (moveTowards npc t) = py (pos npc) + (if py t > py (pos npc) then 1 else - 1)"
    using assms(3) by (auto simp: moveTowards_def js_sign_def Let_def distance_def)
  show "distance (moveTowards npc t) t = distance (pos npc) t - 1"
    using assms(3) by (auto simp: moveTowards_def js_sign_def Let_def distance_def)
qed

theorem moving_step_witness:
  "update_npc (draws 0) 0 (colony (plain GRASS) [] [] (purse 0))
       (dwarf ''a'' WORKER MOVING (0, 0) (Some (5, 2)) 0)
     = Inr (dwarf ''a'' WORKER MOVING (1, 0) (Some (5, 2)) 0, colony (plain GRASS) [] [] (purse 0), 0)
   \<and> update_npc (draws 0) 0 (colony (plain GRASS) [] [] (purse 0))
       (dwarf ''a'' WORKER MOVING (0, 0) (Some (2, - 5)) 0)
     = Inr (dwarf ''a'' WORKER MOVING (0, - 1) (Some (2, - 5)) 0, colony (plain GRASS) [] [] (purse 0), 0)"
  using moving_step [of "dwarf ''a'' WORKER MOVING (0, 0) (Some (5, 2)) 0" "\<lparr> px = 5, py = 2 \<rparr>"
                        "draws 0" 0 "colony (plain GRASS) [] [] (purse 0)"]
        moving_step [of "dwarf ''a'' WORKER MOVING (0, 0) (Some (2, - 5)) 0" "\<lparr> px = 2, py = - 5 \<rparr>"
                        "draws 0" 0 "colony (plain GRASS) [] [] (purse 0)"]
  by (simp add: dwarf_def distance_def moveTowards_def js_sign_def)

text \<open>
  C6 as stated says that a tie steps along the \<open>x\<close> axis. An agent at (0, 0) with target
  (2, 2) is at (0, 1) after its tick.
\<close>

theorem tie_steps_along_y:
  "update_npc (draws 0) 0 (colony (plain GRASS) [] [] (purse 0))
       (dwarf ''a'' WORKER MOVING (0, 0) (Some (2, 2)) 0)
     = Inr (dwarf ''a'' WORKER MOVING (0, 1) (Some (2, 2)) 0, colony (plain GRASS) [] [] (purse 0), 0)"
  by (simp add: update_npc_def moving_logic_def dwarf_def distance_def moveTowards_def js_sign_def)

text \<open>
  C10. When the timer of a Gathering agent runs out and the tile at its target is
  neither Forest nor Mountain, the ledger, the map and the buildings are as before, and
  the agent is Idle with no target. (One draw decides whether the log gets an entry.)
\<close>

theorem gathering_without_resource:
  assumes "state npc = GATHERING" and "actionTimer npc - 1 \<le> 0" and "targetPos npc = Some t"
    and "read_tile (tiles ns) (px t) (py t) = Inr tile"
    and "tile \<noteq> Some FOREST" and "tile \<noteq> Some MOUNTAIN"
  shows "\<exists>ns'. update_npc rnd k ns npc =
            Inr (npc\<lparr> actionTimer := actionTimer npc - 1, state := IDLE, targetPos := None \<rparr>, ns', k + 1)
          \<and> resources ns' = resources ns \<and> tiles ns' = tiles ns \<and> buildings ns' = buildings ns"
  using assms
  by (simp add: update_npc_def gathering_logic_def finish_gather_def unshift_def Let_def)

theorem gathering_without_resource_witness:
  "\<exists>ns'. update_npc (draws 0) 0 (colony (plain GRASS) [] [] (purse 7))
             (dwarf ''a'' WORKER GATHERING (3, 3) (Some (3, 4)) 1)
          = Inr (dwarf ''a'' WORKER IDLE (3, 3) None 0, ns', 1)
        \<and> resources ns' = purse 7 \<and> tiles ns' = plain GRASS"
proof -
  have "read_tile (tiles (colony (plain GRASS) [] [] (purse 7))) 3 4 = Inr (Some GRASS)"
    by (simp add: colony_def read_tile_plain tile_at_plain)
  from gathering_without_resource [of "dwarf ''a'' WORKER GATHERING (3, 3) (Some (3, 4)) 1"
          "\<lparr> px = 3, py = 4 \<rparr>" "colony (plain GRASS) [] [] (purse 7)" "Some GRASS" "draws 0" 0]
       this
  obtain ns' where "update_npc (draws 0) 0 (colony (plain GRASS) [] [] (purse 7))
             (dwarf ''a'' WORKER GATHERING (3, 3) (Some (3, 4)) 1)
          = Inr ((dwarf ''a'' WORKER GATHERING (3, 3) (Some (3, 4)) 1)
                   \<lparr> actionTimer := 1 - 1, state := IDLE, targetPos := None \<rparr>, ns', 0 + 1)"
    "resources ns' = resources (colony (plain GRASS) [] [] (purse 7))"
    "tiles ns' = tiles (colony (plain GRASS) [] [] (purse 7))"
    by (auto simp: dwarf_def)
  then show ?thesis
    by (intro exI [of _ ns']) (simp add: dwarf_def colony_def)
qed

section \<open>The ledger never goes negative\<close>

lemma solvent_upd: "solvent res \<Longrightarrow> 0 \<le> v \<Longrightarrow> solvent (res(r := v))"
  by (cases r) (simp_all add: solvent_def)

lemma solvent_crafting:
  "solvent (resources ns) \<Longrightarrow> solvent (resources (snd (crafting_logic ns npc)))"
  by (simp add: crafting_logic_def unshift_def Let_def solvent_upd)

lemma resources_whack: "resources (whack i ns) = resources ns"
  by (simp add: whack_def unshift_def Let_def)

lemma resources_building: "resources (snd (building_logic ns npc)) = resources ns"
  by (simp add: building_logic_def Let_def resources_whack split: option.splits)

lemma solvent_farming:
  "solvent (resources ns) \<Longrightarrow> solvent (resources (fst (snd (farming_logic rnd k ns npc))))"
  by (simp add: farming_logic_def Let_def solvent_upd solvent_def)

lemma resources_finish_gather:
  "resources (fst (snd (finish_gather rnd k ns npc g sec))) = resources ns"
  by (simp add: finish_gather_def unshift_def)

lemma solvent_gather_forest:
  "solvent (resources ns) \<Longrightarrow> gather_forest rnd k ns npc t = Inr (npc', ns', k')
     \<Longrightarrow> solvent (resources ns')"
  by (auto simp: gather_forest_def finish_gather_def unshift_def Let_def solvent_def
           split: if_splits sum.splits)

lemma solvent_gather_mountain:
  "solvent (resources ns) \<Longrightarrow> gather_mountain rnd k ns npc t = Inr (npc', ns', k')
     \<Longrightarrow> solvent (resources ns')"
  by (auto simp: gather_mountain_def finish_gather_def unshift_def Let_def solvent_def
           split: if_splits sum.splits)

lemma solvent_gathering:
  "solvent (resources ns) \<Longrightarrow> gathering_logic rnd k ns npc = Inr (npc', ns', k')
     \<Longrightarrow> solvent (resources ns')"
  by (auto simp: gathering_logic_def Let_def finish_gather_def unshift_def
           dest: solvent_gather_forest solvent_gather_mountain
           split: if_splits option.splits sum.splits)

lemma solvent_update_npc:
  assumes "solvent (resources ns)" and "update_npc rnd k ns npc = Inr (npc', ns', k')"
  shows "solvent (resources ns')"
proof (cases "state npc")
  case IDLE
  with assms show ?thesis by (auto simp: update_npc_def split: prod.splits)
next
  case MOVING
  with assms show ?thesis by (auto simp: update_npc_def split: sum.splits)
next
  case GATHERING
  with assms show ?thesis by (auto simp: update_npc_def dest: solvent_gathering)
next
  case BUILDING
  with assms resources_building [of ns npc] show ?thesis
    by (auto simp: update_npc_def split: prod.splits)
next
  case SLEEPING
  with assms show ?thesis by (auto simp: update_npc_def)
next
  case FIGHTING
  with assms show ?thesis by (auto simp: update_npc_def)
next
  case CRAFTING
  with assms solvent_crafting [of ns npc] show ?thesis
    by (auto simp: update_npc_def split: prod.splits)
next
  case FARMING
  with assms solvent_farming [of ns rnd k npc] show ?thesis
    by (auto simp: update_npc_def)
qed

lemma solvent_update_npcs:
  "solvent (resources ns) \<Longrightarrow> update_npcs rnd k ns xs = Inr (xs', ns', k')
     \<Longrightarrow> solvent (resources ns')"
proof (induction xs arbitrary: ns k xs')
  case Nil
  then show ?case by simp
next
  case (Cons npc rest)
  from Cons.prems(2) obtain npc1 ns1 k1 rest1 where
    a: "update_npc rnd k ns npc = Inr (npc1, ns1, k1)" and
    b: "update_npcs rnd k1 ns1 rest = Inr (rest1, ns', k')"
    by (auto split: sum.splits)
  from solvent_update_npc [OF Cons.prems(1) a] have "solvent (resources ns1)" .
  from Cons.IH [OF this b] show ?case .
qed

lemma solvent_updateGameState:
  assumes "solvent (resources s)" and "updateGameState rnd s = Inr s'"
  shows "solvent (resources s')"
proof -
  let ?ns = "fate_gain (change_weather (s\<lparr> tickCount := tickCount s + 1 \<rparr>))"
  have ns: "solvent (resources ?ns)"
    using assms(1) by (simp add: fate_gain_def change_weather_def Let_def solvent_def)
  from assms(2) obtain xs' ns' k' where
    u: "update_npcs rnd 0 ?ns (npcs ?ns) = Inr (xs', ns', k')" and
    s': "s' = random_event rnd k' (ns'\<lparr> npcs := xs' \<rparr>)"
    by (auto simp: updateGameState_def Let_def split: sum.splits)
  from solvent_update_npcs [OF ns u] have "solvent (resources ns')" .
  then show ?thesis
    unfolding s' by (simp add: random_event_def unshift_def solvent_def)
qed

lemma solvent_deduct:
  "solvent res \<Longrightarrow> \<not> short_of cost res r \<Longrightarrow> solvent (deduct cost r res)"
  by (cases r) (auto simp: deduct_def short_of_def solvent_def split: option.splits)

lemma short_of_deduct_other:
  "r \<noteq> r' \<Longrightarrow> short_of cost (deduct cost r' res) r = short_of cost res r"
  by (auto simp: deduct_def short_of_def split: option.splits)

lemma solvent_placeBuilding:
  assumes "solvent (resources s)" and "placeBuilding now s cx cy t = Placed s'"
  shows "solvent (resources s')"
proof -
  from assms(2) have
    w: "\<not> short_of (BUILDING_COSTS t) (resources s) WOOD" and
    st: "\<not> short_of (BUILDING_COSTS t) (resources s) STONE" and
    r: "resources s' = deduct (BUILDING_COSTS t) STONE (deduct (BUILDING_COSTS t) WOOD (resources s))"
    by (auto simp: placeBuilding_def Let_def split: if_splits sum.splits)
  have "solvent (deduct (BUILDING_COSTS t) WOOD (resources s))"
    using assms(1) w by (rule solvent_deduct)
  moreover have "\<not> short_of (BUILDING_COSTS t) (deduct (BUILDING_COSTS t) WOOD (resources s)) STONE"
    using st by (simp add: short_of_deduct_other)
  ultimately show ?thesis unfolding r by (rule solvent_deduct)
qed

lemma solvent_bless: "solvent (resources s) \<Longrightarrow> solvent (resources (bless s i))"
  by (auto simp: bless_def unshift_def Let_def solvent_def split: option.splits)

lemma resources_cycleRole: "resources (cycleRole s i) = resources s"
  by (simp add: cycleRole_def unshift_def Let_def split: option.splits)

lemma solvent_handleAction: "solvent (resources s) \<Longrightarrow> solvent (resources (handleAction a s))"
  by (simp add: handleAction_def solvent_bless resources_cycleRole split: option.splits)

lemma reachable_solvent: "reachable s \<Longrightarrow> solvent (resources s)"
proof (induction rule: reachable.induct)
  case (genesis nm seedInput rnd now s)
  with createInitialState_Inr [of nm seedInput rnd now] show ?case
    by (auto simp: solvent_def)
next
  case (tick s rnd s')
  then show ?case by (blast intro: solvent_updateGameState)
next
  case (place s t0 cx cy t s')
  then show ?case by (blast intro: solvent_placeBuilding)
next
  case (select s i)
  then show ?case by (simp add: handleEntitySelect_def)
next
  case (action s a)
  then show ?case by (simp add: solvent_handleAction)
qed

text \<open>
  C1. In every reachable state (genesis, then any ticks, placements, selections, blessings
  and role changes) every count of the ledger is a non-negative integer. The deductions
  are guarded, not clamped: with less Wood than a pickaxe costs the crafting step leaves
  the world as it is, a placement that succeeds was not short of Wood or Stone and
  charges exactly the cost, a blessing with less than 5 Fate changes nothing; the only
  clamp at zero is the food loss of the random event.
\<close>

theorem resources_never_negative:
  "(reachable s \<longrightarrow>
      0 \<le> resources s WOOD \<and> 0 \<le> resources s STONE \<and> 0 \<le> resources s FOOD \<and> 0 \<le> resources s FATE)
   \<and> (resources s1 WOOD < PICKAXE_WOOD \<longrightarrow> snd (crafting_logic s1 npc) = s1)
   \<and> (placeBuilding now s2 cx cy t = Placed s2' \<longrightarrow>
        \<not> short_of (BUILDING_COSTS t) (resources s2) WOOD
        \<and> \<not> short_of (BUILDING_COSTS t) (resources s2) STONE
        \<and> resources s2' = deduct (BUILDING_COSTS t) STONE (deduct (BUILDING_COSTS t) WOOD (resources s2)))
   \<and> (resources s3 FATE < 5 \<longrightarrow> bless s3 i = s3)
   \<and> resources (random_event rnd k s4) FOOD \<in> {resources s4 FOOD, max 0 (resources s4 FOOD - 2)}"
proof (intro conjI)
  show "reachable s \<longrightarrow>
      0 \<le> resources s WOOD \<and> 0 \<le> resources s STONE \<and> 0 \<le> resources s FOOD \<and> 0 \<le> resources s FATE"
    using reachable_solvent [of s] by (simp add: solvent_def)
  show "resources s1 WOOD < PICKAXE_WOOD \<longrightarrow> snd (crafting_logic s1 npc) = s1"
    by (simp add: crafting_logic_def Let_def)
  show "placeBuilding now s2 cx cy t = Placed s2' \<longrightarrow>
        \<not> short_of (BUILDING_COSTS t) (resources s2) WOOD
        \<and> \<not> short_of (BUILDING_COSTS t) (resources s2) STONE
        \<and> resources s2' = deduct (BUILDING_COSTS t) STONE (deduct (BUILDING_COSTS t) WOOD (resources s2))"
    by (auto simp: placeBuilding_def Let_def split: if_splits sum.splits)
  show "resources s3 FATE < 5 \<longrightarrow> bless s3 i = s3"
    by (simp add: bless_def)
  show "resources (random_event rnd k s4) FOOD \<in> {resources s4 FOOD, max 0 (resources s4 FOOD - 2)}"
    by (simp add: random_event_def unshift_def)
qed

theorem resources_never_negative_witness:
  "(\<exists>s. createInitialState ''Ironhold'' (Some 42) (draws 0) clock0 = Inr s \<and> reachable s
        \<and> 0 \<le> resources s WOOD \<and> 0 \<le> resources s STONE \<and> 0 \<le> resources s FOOD \<and> 0 \<le> resources s FATE)
   \<and> snd (crafting_logic (colony (plain GRASS) [] [] (purse 9))
             (dwarf ''a'' WORKER CRAFTING (25, 21) (Some (25, 20)) 1))
       = colony (plain GRASS) [] [] (purse 9)
   \<and> (\<exists>s'. placeBuilding 0 (colony (plain GRASS) [] [] (purse 50)) 3 4 FARM = Placed s'
        \<and> resources s' WOOD = 20 \<and> resources s' STONE = 40 \<and> resources s' FOOD = 50)
   \<and> bless (colony (plain GRASS) [dwarf ''a'' WORKER IDLE (25, 21) None 0] [] (purse 4)) ''a''
       = colony (plain GRASS) [dwarf ''a'' WORKER IDLE (25, 21) None 0] [] (purse 4)
   \<and> resources (random_event (first_then 0 (3 / 4)) 0 (colony (plain GRASS) [] [] (purse 1))) FOOD = 0"
proof (intro conjI)
  obtain s where s: "createInitialState ''Ironhold'' (Some 42) (draws 0) clock0 = Inr s"
    using createInitialState_Inr [of "''Ironhold''" "Some 42" "draws 0" clock0] by blast
  then have r: "reachable s" by (rule reachable.genesis)
  from resources_never_negative [of s] r
  have "0 \<le> resources s WOOD \<and> 0 \<le> resources s STONE \<and> 0 \<le> resources s FOOD \<and> 0 \<le> resources s FATE"
    by blast
  with s r show "\<exists>s. createInitialState ''Ironhold'' (Some 42) (draws 0) clock0 = Inr s \<and> reachable s
        \<and> 0 \<le> resources s WOOD \<and> 0 \<le> resources s STONE \<and> 0 \<le> resources s FOOD \<and> 0 \<le> resources s FATE"
    by (intro exI [of _ s]) simp
next
  show "snd (crafting_logic (colony (plain GRASS) [] [] (purse 9))
             (dwarf ''a'' WORKER CRAFTING (25, 21) (Some (25, 20)) 1))
       = colony (plain GRASS) [] [] (purse 9)"
    using resources_never_negative [of _ "colony (plain GRASS) [] [] (purse 9)"
             "dwarf ''a'' WORKER CRAFTING (25, 21) (Some (25, 20)) 1"]
    by (simp add: colony_def purse_def PICKAXE_WOOD_def)
next
  have p: "\<exists>s'. placeBuilding 0 (colony (plain GRASS) [] [] (purse 50)) 3 4 FARM = Placed s'"
    by (simp add: placeBuilding_def colony_def read_tile_plain tile_at_plain MAP_WIDTH_def
                  MAP_HEIGHT_def short_of_def purse_def Let_def)
  then obtain s' where s': "placeBuilding 0 (colony (plain GRASS) [] [] (purse 50)) 3 4 FARM = Placed s'"
    by blast
  from resources_never_negative [of _ _ _ 0 "colony (plain GRASS) [] [] (purse 50)" 3 4 FARM s'] s'
  have "resources s' = deduct (BUILDING_COSTS FARM) STONE
          (deduct (BUILDING_COSTS FARM) WOOD (resources (colony (plain GRASS) [] [] (purse 50))))"
    by blast
  then have "resources s' WOOD = 20 \<and> resources s' STONE = 40 \<and> resources s' FOOD = 50"
    by (simp add: deduct_def colony_def purse_def)
  with s' show "\<exists>s'. placeBuilding 0 (colony (plain GRASS) [] [] (purse 50)) 3 4 FARM = Placed s'
        \<and> resources s' WOOD = 20 \<and> resources s' STONE = 40 \<and> resources s' FOOD = 50"
    by (intro exI [of _ s']) simp
next
  show "bless (colony (plain GRASS) [dwarf ''a'' WORKER IDLE (25, 21) None 0] [] (purse 4)) ''a''
       = colony (plain GRASS) [dwarf ''a'' WORKER IDLE (25, 21) None 0] [] (purse 4)"
    using resources_never_negative [of _ _ _ _ _ _ _ _ _
             "colony (plain GRASS) [dwarf ''a'' WORKER IDLE (25, 21) None 0] [] (purse 4)" "''a''"]
    by (simp add: colony_def purse_def)
next
  show "resources (random_event (first_then 0 (3 / 4)) 0 (colony (plain GRASS) [] [] (purse 1))) FOOD = 0"
    by (simp add: random_event_def random_def first_then_def unshift_def colony_def purse_def)
qed

section \<open>The length of the log\<close>

lemma show_nat_0: "show_nat 0 = ''0''"
  by (simp add: show_nat.simps digit_char_def)

lemma findIndex_map: "findIndex (\<lambda>n. f n = v) xs = findIndex (\<lambda>e. e = v) (map f xs)"
  by (induction xs) simp_all

lemma eid_cycleRole: "map eid (npcs (cycleRole s i)) = map eid (npcs s)"
proof (cases "findIndex (\<lambda>n. eid n = i) (npcs s)")
  case None
  then show ?thesis by (simp add: cycleRole_def)
next
  case (Some j)
  have "j < length (npcs s)" using findIndex_Some [OF Some] by simp
  then show ?thesis
    by (simp add: npcs_cycleRole [OF Some] map_update list_update_same_conv)
qed

lemma logs_cycleRole:
  "findIndex (\<lambda>n. eid n = i) (npcs s) = Some j \<Longrightarrow> logs (cycleRole s i) = 
     \<lparr> message = name (npcs s ! j) @ '' is now a ''
                   @ role_name (roles ! nat (js_rem (indexOf roles (role (npcs s ! j)) + 1) (int (length roles))))
                   @ ''.'',
       ltype = INFO \<rparr> # logs s"
  by (simp add: cycleRole_def unshift_def Let_def)

lemma selected_cycleRole: "selectedEntityId (cycleRole s i) = selectedEntityId s"
  by (simp add: cycleRole_def unshift_def Let_def split: option.splits)

lemma cycle_many:
  assumes "reachable s" and "selected s = Some i"
    and "findIndex (\<lambda>e. e = i) (map eid (npcs s)) = Some j"
  shows "reachable ((handleAction ''CYCLE_ROLE'' ^^ n) s)
         \<and> length (logs ((handleAction ''CYCLE_ROLE'' ^^ n) s)) = length (logs s) + n
         \<and> selectedEntityId ((handleAction ''CYCLE_ROLE'' ^^ n) s) = selectedEntityId s
         \<and> map eid (npcs ((handleAction ''CYCLE_ROLE'' ^^ n) s)) = map eid (npcs s)"
proof (induction n)
  case 0
  with assms(1) show ?case by simp
next
  case (Suc n)
  let ?s = "(handleAction ''CYCLE_ROLE'' ^^ n) s"
  have sel: "selected ?s = Some i" using Suc assms(2) by (simp add: selected_def)
  have idx: "findIndex (\<lambda>n. eid n = i) (npcs ?s) = Some j"
    using Suc assms(3) by (simp add: findIndex_map [of eid])
  have h: "handleAction ''CYCLE_ROLE'' ?s = cycleRole ?s i"
    using sel by (simp add: handleAction_def)
  have "reachable (handleAction ''CYCLE_ROLE'' ?s)"
    using Suc by (blast intro: reachable.action)
  then show ?case
    using Suc by (simp add: h logs_cycleRole [OF idx] selected_cycleRole eid_cycleRole)
qed

text \<open>
  C5. The claim is that the log never holds more than 50 entries. Only the weather
  change truncates the log (\<open>slice(0, 50)\<close>); every other writer prepends with \<open>unshift\<close>
  and never truncates. At genesis the log holds one entry; after the first agent is
  selected and its role is cycled 50 times, the log of this reachable state holds 51.
\<close>

theorem log_grows_past_fifty:
  "\<exists>s0. createInitialState ''Ironhold'' (Some 42) (draws 0) clock0 = Inr s0
     \<and> reachable ((handleAction ''CYCLE_ROLE'' ^^ 50) (handleEntitySelect (Some ''npc_0_0'') s0))
     \<and> length (logs ((handleAction ''CYCLE_ROLE'' ^^ 50) (handleEntitySelect (Some ''npc_0_0'') s0))) = 51"
proof -
  from createInitialState_Inr [of "''Ironhold''" "Some 42" "draws 0" clock0]
  obtain s0 where s0: "createInitialState ''Ironhold'' (Some 42) (draws 0) clock0 = Inr s0"
    "logs s0 = [\<lparr> message = ''The expedition has arrived.'', ltype = INFO \<rparr>]"
    "map eid (npcs s0) = map (\<lambda>i. ''npc_'' @ show_nat (clock0 i) @ ''_'' @ show_nat i) [0..<5]"
    by blast
  let ?s = "handleEntitySelect (Some ''npc_0_0'') s0"
  have r: "reachable ?s" using s0(1) by (blast intro: reachable.genesis reachable.select)
  have sel: "selected ?s = Some ''npc_0_0''"
    by (simp add: selected_def handleEntitySelect_def)
  have idx: "findIndex (\<lambda>e. e = ''npc_0_0'') (map eid (npcs ?s)) = Some 0"
    by (simp add: handleEntitySelect_def s0(3) upt_conv_Cons clock0_def show_nat_0)
  from cycle_many [OF r sel idx, of 50]
  have "reachable ((handleAction ''CYCLE_ROLE'' ^^ 50) ?s)"
    "length (logs ((handleAction ''CYCLE_ROLE'' ^^ 50) ?s)) = length (logs ?s) + 50"
    by simp_all
  moreover have "length (logs ?s) = 1" by (simp add: handleEntitySelect_def s0(2))
  ultimately show ?thesis using s0(1) by (intro exI [of _ s0]) simp
qed

section \<open>The idle worker\<close>

lemma best_of_visit:
  assumes "best_of m start t S acc"
  shows "best_of m start t (insert (tx, ty) S) (visit_tile m start t ty tx acc)"
proof (cases "tile_at m (int tx) (int ty) = Some t")
  case False
  with assms show ?thesis
    by (auto simp: best_of_def visit_tile_def split: option.splits)
next
  case True
  show ?thesis
  proof (cases acc)
    case None
    with assms True show ?thesis
      by (simp add: best_of_def visit_tile_def Let_def)
  next
    case (Some a)
    obtain q d where a: "a = (q, d)" by (cases a)
    show ?thesis
    proof (cases "distance start \<lparr> px = int tx, py = int ty \<rparr> < d")
      case nearer: True
      with assms True Some a show ?thesis
        by (auto simp: best_of_def visit_tile_def Let_def)
    next
      case False
      with assms True Some a show ?thesis
        by (auto simp: best_of_def visit_tile_def Let_def)
    qed
  qed
qed

lemma best_of_row:
  "best_of m start t S acc \<Longrightarrow>
     best_of m start t (S \<union> (\<lambda>tx. (tx, ty)) ` set xs) (fold (visit_tile m start t ty) xs acc)"
proof (induction xs arbitrary: S acc)
  case Nil
  then show ?case by simp
next
  case (Cons tx xs)
  from best_of_visit [OF Cons.prems, of tx ty]
  have "best_of m start t (insert (tx, ty) S) (visit_tile m start t ty tx acc)" .
  from Cons.IH [OF this] show ?case by (simp add: insert_commute Un_insert_left [symmetric] del: Un_insert_left)
qed

lemma best_of_rows:
  "best_of m start t S acc \<Longrightarrow>
     best_of m start t (S \<union> set xs \<times> set ys)
       (fold (\<lambda>ty. fold (visit_tile m start t ty) xs) ys acc)"
proof (induction ys arbitrary: S acc)
  case Nil
  then show ?case by simp
next
  case (Cons ty ys)
  from best_of_row [OF Cons.prems, of ty xs]
  have "best_of m start t (S \<union> (\<lambda>tx. (tx, ty)) ` set xs) (fold (visit_tile m start t ty) xs acc)" .
  from Cons.IH [OF this]
  have "best_of m start t ((S \<union> (\<lambda>tx. (tx, ty)) ` set xs) \<union> set xs \<times> set ys)
          (fold (\<lambda>ty. fold (visit_tile m start t ty) xs) ys (fold (visit_tile m start t ty) xs acc))" .
  moreover have "(S \<union> (\<lambda>tx. (tx, ty)) ` set xs) \<union> set xs \<times> set ys = S \<union> set xs \<times> set (ty # ys)"
    by auto
  ultimately show ?case by simp
qed

lemma findNearestTile_grid:
  assumes "grid h w m"
  shows "(findNearestTile m start t = None \<longrightarrow> (\<forall>tx ty. tile_at m tx ty \<noteq> Some t))
       \<and> (\<forall>p. findNearestTile m start t = Some p \<longrightarrow>
              tile_at m (px p) (py p) = Some t
              \<and> (\<forall>tx ty. tile_at m tx ty = Some t \<longrightarrow> distance start p \<le> distance start \<lparr> px = tx, py = ty \<rparr>))"
proof (cases m)
  case Nil
  then show ?thesis by (auto simp: findNearestTile_def tile_at_def)
next
  case (Cons row0 rest)
  have w: "length row0 = w" using assms Cons by (simp add: grid_def)
  have h: "length m = h" using assms by (simp add: grid_def)
  let ?acc = "fold (\<lambda>ty. fold (visit_tile m start t ty) [0..<w]) [0..<h] None"
  have f: "findNearestTile m start t = map_option fst ?acc"
    using Cons w h by (simp add: findNearestTile_def)
  have "best_of m start t {} None" by (simp add: best_of_def)
  from best_of_rows [OF this, of "[0..<w]" "[0..<h]"]
  have b: "best_of m start t ({0..<w} \<times> {0..<h}) ?acc" by simp
  have cover: "0 \<le> tx \<and> 0 \<le> ty \<and> nat tx < w \<and> nat ty < h"
    if "tile_at m tx ty = Some t" for tx ty
    using that by (auto simp: tile_at_grid [OF assms] split: if_splits)
  show ?thesis
  proof (cases ?acc)
    case None
    have "tile_at m tx ty \<noteq> Some t" for tx ty
    proof
      assume a: "tile_at m tx ty = Some t"
      from cover [OF a] have c: "0 \<le> tx" "0 \<le> ty" "nat tx < w" "nat ty < h" by simp_all
      from b None have "\<And>x y. x < w \<Longrightarrow> y < h \<Longrightarrow> tile_at m (int x) (int y) \<noteq> Some t"
        by (auto simp: best_of_def)
      from this [OF c(3,4)] a c(1,2) show False by simp
    qed
    with None f show ?thesis by simp
  next
    case (Some a)
    obtain p d where a: "a = (p, d)" by (cases a)
    have p: "findNearestTile m start t = Some p" using f Some a by simp
    from b Some a have d: "d = distance start p" and tp: "tile_at m (px p) (py p) = Some t"
      by (simp_all add: best_of_def)
    from b Some a have least: "\<And>x y. x < w \<Longrightarrow> y < h \<Longrightarrow> tile_at m (int x) (int y) = Some t
                \<Longrightarrow> d \<le> distance start \<lparr> px = int x, py = int y \<rparr>"
      by (auto simp: best_of_def)
    have "distance start p \<le> distance start \<lparr> px = tx, py = ty \<rparr>"
      if a: "tile_at m tx ty = Some t" for tx ty
    proof -
      from cover [OF a] have c: "0 \<le> tx" "0 \<le> ty" "nat tx < w" "nat ty < h" by simp_all
      from least [OF c(3,4)] a c(1,2) d show ?thesis by simp
    qed
    with p tp show ?thesis by simp
  qed
qed

lemma floor_rat_numeral:
  "\<lfloor>(numeral a :: rat) / numeral b\<rfloor> = numeral a div numeral b"
  "\<lfloor>(1 :: rat) / numeral b\<rfloor> = 1 div numeral b"
  by (metis floor_divide_of_int_eq of_int_numeral)
     (metis floor_divide_of_int_eq of_int_numeral of_int_1)

lemma random_range: "0 \<le> random rnd k \<and> random rnd k < 1"
  by (simp add: random_def frac_lt_1)

lemma random_below_5: "0 \<le> random_below rnd k 5 \<and> random_below rnd k 5 \<le> 4"
proof -
  have "0 \<le> random rnd k * 5" "random rnd k * 5 < 5"
    using random_range [of rnd k] by simp_all
  then have "0 \<le> \<lfloor>random rnd k * 5\<rfloor>" "\<lfloor>random rnd k * 5\<rfloor> < 5"
    by (simp_all add: floor_less_iff)
  then show ?thesis by (simp add: random_below_def)
qed

lemma idle_thought_keeps:
  "idle_thought rnd k npc = (npc1, k1) \<Longrightarrow>
     role npc1 = role npc \<and> pickaxe npc1 = pickaxe npc \<and> pos npc1 = pos npc \<and> state npc1 = state npc"
  by (auto simp: idle_thought_def split: if_splits)

lemma grid_plain: "grid MAP_HEIGHT MAP_WIDTH (plain t)"
  by (simp add: grid_def plain_def list_all_length)

lemma grid_grove: "grid MAP_HEIGHT MAP_WIDTH grove"
  by (auto simp: grid_def grove_def plain_def list_all_length nth_list_update MAP_WIDTH_def MAP_HEIGHT_def)

lemma tile_at_grove_3_4: "tile_at grove 3 4 = Some FOREST"
  by (simp add: tile_at_def grove_def plain_def MAP_WIDTH_def MAP_HEIGHT_def)

text \<open>
  C7, as amended. An Idle Worker without a pickaxe, in a world with less than 10 Wood,
  starts Moving. When the map has a Forest tile, its target is a Forest tile at the least
  Manhattan distance from the agent, and so never the position of a building that stands
  on a tile that is not Forest (the Base stands on Grass). When the map has no Forest
  tile, the agent wanders: its target is its own position moved by at most 2 along each
  axis and clamped to the map.
\<close>

theorem worker_seeks_forest:
  assumes "state npc = IDLE" and "role npc = WORKER" and "\<not> pickaxe npc"
    and "resources ns WOOD < PICKAXE_WOOD" and "grid h w (tiles ns)"
  shows "\<exists>npc' k'. update_npc rnd k ns npc = Inr (npc', ns, k') \<and> state npc' = MOVING
     \<and> ((\<exists>tx ty. tile_at (tiles ns) tx ty = Some FOREST) \<longrightarrow>
          (\<exists>p. targetPos npc' = Some p
             \<and> tile_at (tiles ns) (px p) (py p) = Some FOREST
             \<and> (\<forall>tx ty. tile_at (tiles ns) tx ty = Some FOREST
                   \<longrightarrow> distance (pos npc) p \<le> distance (pos npc) \<lparr> px = tx, py = ty \<rparr>)
             \<and> (\<forall>b \<in> set (buildings ns).
                   tile_at (tiles ns) (px (pos b)) (py (pos b)) \<noteq> Some FOREST \<longrightarrow> p \<noteq> pos b)))
     \<and> ((\<forall>tx ty. tile_at (tiles ns) tx ty \<noteq> Some FOREST) \<longrightarrow>
          (\<exists>p dx dy. targetPos npc' = Some p \<and> \<bar>dx\<bar> \<le> 2 \<and> \<bar>dy\<bar> \<le> 2
             \<and> px p = max 0 (min (int MAP_WIDTH - 1) (px (pos npc) + dx))
             \<and> py p = max 0 (min (int MAP_HEIGHT - 1) (py (pos npc) + dy))))"
proof -
  obtain npc1 k1 where it: "idle_thought rnd k npc = (npc1, k1)"
    by (cases "idle_thought rnd k npc")
  from idle_thought_keeps [OF it] assms(1-3)
  have n1: "role npc1 = WORKER" "\<not> pickaxe npc1" "pos npc1 = pos npc" by simp_all
  have u: "update_npc rnd k ns npc = Inr (fst (idle_worker rnd k1 ns npc1), ns, snd (idle_worker rnd k1 ns npc1))"
    using assms(1) it n1(1) by (simp add: update_npc_def idle_logic_def split: prod.splits)
  note fnt = findNearestTile_grid [OF assms(5), of "pos npc" FOREST]
  show ?thesis
  proof (cases "findNearestTile (tiles ns) (pos npc) FOREST")
    case None
    then have w: "idle_worker rnd k1 ns npc1 = (wander rnd k1 npc1, k1 + 2)"
      using n1 assms(4) by (simp add: idle_worker_def)
    from None fnt have nof: "\<forall>tx ty. tile_at (tiles ns) tx ty \<noteq> Some FOREST" by simp
    let ?dx = "random_below rnd k1 5 - 2" and ?dy = "random_below rnd (k1 + 1) 5 - 2"
    have d: "\<bar>?dx\<bar> \<le> 2" "\<bar>?dy\<bar> \<le> 2"
      using random_below_5 [of rnd k1] random_below_5 [of rnd "k1 + 1"] by auto
    have t: "targetPos (wander rnd k1 npc1) =
               Some \<lparr> px = max 0 (min (int MAP_WIDTH - 1) (px (pos npc) + ?dx)),
                      py = max 0 (min (int MAP_HEIGHT - 1) (py (pos npc) + ?dy)) \<rparr>"
      using n1(3) by (simp add: wander_def algebra_simps)
    have "\<exists>p dx dy. targetPos (wander rnd k1 npc1) = Some p \<and> \<bar>dx\<bar> \<le> 2 \<and> \<bar>dy\<bar> \<le> 2
             \<and> px p = max 0 (min (int MAP_WIDTH - 1) (px (pos npc) + dx))
             \<and> py p = max 0 (min (int MAP_HEIGHT - 1) (py (pos npc) + dy))"
      by (rule exI [of _ "the (targetPos (wander rnd k1 npc1))"], rule exI [of _ ?dx], rule exI [of _ ?dy])
         (use d in \<open>simp add: t\<close>)
    moreover have "state (wander rnd k1 npc1) = MOVING" by (simp add: wander_def)
    ultimately show ?thesis using u w nof by simp
  next
    case (Some p)
    then have w: "idle_worker rnd k1 ns npc1 = (npc1\<lparr> targetPos := Some p, state := MOVING \<rparr>, k1)"
      using n1 assms(4) by (simp add: idle_worker_def)
    from Some fnt have p: "tile_at (tiles ns) (px p) (py p) = Some FOREST"
      "\<forall>tx ty. tile_at (tiles ns) tx ty = Some FOREST
           \<longrightarrow> distance (pos npc) p \<le> distance (pos npc) \<lparr> px = tx, py = ty \<rparr>"
      by simp_all
    have "\<forall>b \<in> set (buildings ns).
            tile_at (tiles ns) (px (pos b)) (py (pos b)) \<noteq> Some FOREST \<longrightarrow> p \<noteq> pos b"
      using p(1) by auto
    with p have "\<exists>q. targetPos (npc1\<lparr> targetPos := Some p, state := MOVING \<rparr>) = Some q
             \<and> tile_at (tiles ns) (px q) (py q) = Some FOREST
             \<and> (\<forall>tx ty. tile_at (tiles ns) tx ty = Some FOREST
                   \<longrightarrow> distance (pos npc) q \<le> distance (pos npc) \<lparr> px = tx, py = ty \<rparr>)
             \<and> (\<forall>b \<in> set (buildings ns).
                   tile_at (tiles ns) (px (pos b)) (py (pos b)) \<noteq> Some FOREST \<longrightarrow> q \<noteq> pos b)"
      by (intro exI [of _ p]) simp
    moreover have "\<not> (\<forall>tx ty. tile_at (tiles ns) tx ty \<noteq> Some FOREST)" using p(1) by blast
    ultimately show ?thesis using u w by auto
  qed
qed

theorem worker_seeks_forest_witness:
  "tile_at grove 3 4 = Some FOREST
   \<and> (\<exists>npc' k' p. update_npc (draws (1 / 2)) 0 (colony grove [] [base_building] (purse 0))
                      (dwarf ''a'' WORKER IDLE (5, 4) None 0)
                    = Inr (npc', colony grove [] [base_building] (purse 0), k')
         \<and> targetPos npc' = Some p
         \<and> tile_at grove (px p) (py p) = Some FOREST
         \<and> distance \<lparr> px = 5, py = 4 \<rparr> p \<le> 2
         \<and> p \<noteq> pos base_building)
   \<and> (\<exists>npc' k' p. update_npc (draws (1 / 2)) 0 (colony (plain GRASS) [] [base_building] (purse 0))
                      (dwarf ''a'' WORKER IDLE (5, 4) None 0)
                    = Inr (npc', colony (plain GRASS) [] [base_building] (purse 0), k')
         \<and> targetPos npc' = Some p \<and> \<bar>px p - 5\<bar> \<le> 2 \<and> \<bar>py p - 4\<bar> \<le> 2)"
proof (intro conjI)
  let ?n = "dwarf ''a'' WORKER IDLE (5, 4) None 0"
  let ?s = "colony grove [] [base_building] (purse 0)"
  let ?e = "colony (plain GRASS) [] [base_building] (purse 0)"
  have n: "state ?n = IDLE" "role ?n = WORKER" "\<not> pickaxe ?n" "pos ?n = \<lparr> px = 5, py = 4 \<rparr>"
    by (simp_all add: dwarf_def)
  have s: "resources ?s WOOD < PICKAXE_WOOD" "tiles ?s = grove" "buildings ?s = [base_building]"
    by (simp_all add: colony_def purse_def PICKAXE_WOOD_def)
  have s0: "resources ?e WOOD < PICKAXE_WOOD" "tiles ?e = plain GRASS"
    by (simp_all add: colony_def purse_def PICKAXE_WOOD_def)
  have g: "grid MAP_HEIGHT MAP_WIDTH (tiles ?s)" "grid MAP_HEIGHT MAP_WIDTH (tiles ?e)"
    by (simp_all add: s s0 grid_grove grid_plain)
  show f: "tile_at grove 3 4 = Some FOREST" by (rule tile_at_grove_3_4)
  from worker_seeks_forest [OF n(1-3) s(1) g(1), of "draws (1 / 2)" 0]
  obtain npc' k' where a: "update_npc (draws (1 / 2)) 0 ?s ?n = Inr (npc', ?s, k')"
    and b: "(\<exists>tx ty. tile_at (tiles ?s) tx ty = Some FOREST) \<longrightarrow>
          (\<exists>p. targetPos npc' = Some p
             \<and> tile_at (tiles ?s) (px p) (py p) = Some FOREST
             \<and> (\<forall>tx ty. tile_at (tiles ?s) tx ty = Some FOREST
                   \<longrightarrow> distance (pos ?n) p \<le> distance (pos ?n) \<lparr> px = tx, py = ty \<rparr>)
             \<and> (\<forall>b \<in> set (buildings ?s).
                   tile_at (tiles ?s) (px (pos b)) (py (pos b)) \<noteq> Some FOREST \<longrightarrow> p \<noteq> pos b))"
    by blast
  from b f obtain p where p: "targetPos npc' = Some p"
    "tile_at grove (px p) (py p) = Some FOREST"
    "\<forall>tx ty. tile_at grove tx ty = Some FOREST
        \<longrightarrow> distance \<lparr> px = 5, py = 4 \<rparr> p \<le> distance \<lparr> px = 5, py = 4 \<rparr> \<lparr> px = tx, py = ty \<rparr>"
    "\<forall>b \<in> set [base_building].
        tile_at grove (px (pos b)) (py (pos b)) \<noteq> Some FOREST \<longrightarrow> p \<noteq> pos b"
    unfolding s n by blast
  from p(3) f have "distance \<lparr> px = 5, py = 4 \<rparr> p \<le> distance \<lparr> px = 5, py = 4 \<rparr> \<lparr> px = 3, py = 4 \<rparr>"
    by blast
  then have d: "distance \<lparr> px = 5, py = 4 \<rparr> p \<le> 2" by (simp add: distance_def)
  have "tile_at grove (px (pos base_building)) (py (pos base_building)) \<noteq> Some FOREST"
    by (simp add: base_building_def tile_at_def grove_def plain_def MAP_WIDTH_def MAP_HEIGHT_def)
  with p(4) have "p \<noteq> pos base_building" by simp
  with a p(1,2) d
  show "\<exists>npc' k' p. update_npc (draws (1 / 2)) 0 ?s ?n = Inr (npc', ?s, k')
         \<and> targetPos npc' = Some p
         \<and> tile_at grove (px p) (py p) = Some FOREST
         \<and> distance \<lparr> px = 5, py = 4 \<rparr> p \<le> 2
         \<and> p \<noteq> pos base_building"
    by (intro exI [of _ npc'] exI [of _ k'] exI [of _ p]) simp
  from worker_seeks_forest [OF n(1-3) s0(1) g(2), of "draws (1 / 2)" 0]
  obtain npc0 k0 where a0: "update_npc (draws (1 / 2)) 0 ?e ?n = Inr (npc0, ?e, k0)"
    and b0: "(\<forall>tx ty. tile_at (tiles ?e) tx ty \<noteq> Some FOREST) \<longrightarrow>
          (\<exists>p dx dy. targetPos npc0 = Some p \<and> \<bar>dx\<bar> \<le> 2 \<and> \<bar>dy\<bar> \<le> 2
             \<and> px p = max 0 (min (int MAP_WIDTH - 1) (px (pos ?n) + dx))
             \<and> py p = max 0 (min (int MAP_HEIGHT - 1) (py (pos ?n) + dy)))"
    by blast
  have "\<forall>tx ty. tile_at (tiles ?e) tx ty \<noteq> Some FOREST" by (simp add: s0 tile_at_plain)
  with b0 obtain q dx dy where q: "targetPos npc0 = Some q" "\<bar>dx\<bar> \<le> 2" "\<bar>dy\<bar> \<le> 2"
    "px q = max 0 (min (int MAP_WIDTH - 1) (px (pos ?n) + dx))"
    "py q = max 0 (min (int MAP_HEIGHT - 1) (py (pos ?n) + dy))"
    by blast
  then have "\<bar>px q - 5\<bar> \<le> 2" "\<bar>py q - 4\<bar> \<le> 2"
    by (auto simp: n MAP_WIDTH_def MAP_HEIGHT_def)
  with a0 q(1)
  show "\<exists>npc' k' p. update_npc (draws (1 / 2)) 0 ?e ?n = Inr (npc', ?e, k')
         \<and> targetPos npc' = Some p \<and> \<bar>px p - 5\<bar> \<le> 2 \<and> \<bar>py p - 4\<bar> \<le> 2"
    by (intro exI [of _ npc0] exI [of _ k0] exI [of _ q]) simp
qed

text \<open>
  C7 as stated says that the target is always a Forest tile and never the Base. On a map
  with no Forest tile the Worker wanders, and the draws can send it to the Base: a
  Worker at (25, 21), just below the Base, gets the target (25, 20), the position of the
  Base, a Grass tile.
\<close>

theorem worker_wanders_to_base:
  "update_npc detour 0 (colony (plain GRASS) [] [base_building] (purse 0))
       (dwarf ''a'' WORKER IDLE (25, 21) None 0)
     = Inr (dwarf ''a'' WORKER MOVING (25, 21) (Some (25, 20)) 0,
            colony (plain GRASS) [] [base_building] (purse 0), 3)
   \<and> pos base_building = \<lparr> px = 25, py = 20 \<rparr>
   \<and> tile_at (plain GRASS) 25 20 = Some GRASS"
proof -
  have "findNearestTile (plain GRASS) \<lparr> px = 25, py = 21 \<rparr> FOREST = None"
    using findNearestTile_grid [OF grid_plain, of GRASS "\<lparr> px = 25, py = 21 \<rparr>" FOREST]
    by (cases "findNearestTile (plain GRASS) \<lparr> px = 25, py = 21 \<rparr> FOREST")
       (auto simp: tile_at_plain split: if_splits)
  then show ?thesis
    by (simp add: update_npc_def idle_logic_def idle_thought_def idle_worker_def wander_def
                  dwarf_def colony_def purse_def PICKAXE_WOOD_def random_def random_below_def
                  detour_def base_building_def tile_at_plain MAP_WIDTH_def MAP_HEIGHT_def
                  frac_def floor_rat_numeral)
qed

section \<open>The progress of construction\<close>



lemma list_all_update:
  "list_all P xs \<Longrightarrow> P v \<Longrightarrow> list_all P (xs[i := v])"
  using set_update_subset_insert [of xs i v] by (auto simp: list_all_iff)

lemma sound_whack:
  assumes "list_all sound_building (buildings ns)" and "i < length (buildings ns)"
  shows "list_all sound_building (buildings (whack i ns))"
proof -
  have b: "sound_building (buildings ns ! i)"
    using assms by (simp add: list_all_length)
  let ?b = "(buildings ns ! i)\<lparr> constructionProgress := constructionProgress (buildings ns ! i) + 10 \<rparr>"
  show ?thesis
  proof (cases "constructionProgress ?b \<ge> maxConstructionProgress ?b")
    case True
    then have "sound_building (?b\<lparr> completed := True \<rparr>)"
      using b by (simp add: sound_building_def)
    from list_all_update [OF assms(1) this, of i] True show ?thesis
      by (simp add: whack_def unshift_def Let_def)
  next
    case False
    then have "sound_building ?b"
      using b by (auto simp: sound_building_def)
    from list_all_update [OF assms(1) this, of i] False show ?thesis
      by (simp add: whack_def unshift_def Let_def)
  qed
qed

lemma sound_building_logic:
  assumes "list_all sound_building (buildings ns)"
  shows "list_all sound_building (buildings (snd (building_logic ns npc)))"
proof (cases "actionTimer npc - 1 \<le> 0")
  case False
  with assms show ?thesis by (simp add: building_logic_def Let_def)
next
  case True
  show ?thesis
  proof (cases "case targetPos npc of None \<Rightarrow> None
                | Some t \<Rightarrow> findIndex (at_xy (px t) (py t)) (buildings ns)")
    case None
    with True assms show ?thesis by (simp add: building_logic_def Let_def)
  next
    case (Some i)
    then have "i < length (buildings ns)"
      by (auto split: option.splits dest: findIndex_Some)
    from sound_whack [OF assms this] True Some show ?thesis
      by (simp add: building_logic_def Let_def)
  qed
qed

lemma buildings_crafting: "buildings (snd (crafting_logic ns npc)) = buildings ns"
  by (simp add: crafting_logic_def unshift_def Let_def)

lemma buildings_farming: "buildings (fst (snd (farming_logic rnd k ns npc))) = buildings ns"
  by (simp add: farming_logic_def Let_def)

lemma buildings_gathering:
  "gathering_logic rnd k ns npc = Inr (npc', ns', k') \<Longrightarrow> buildings ns' = buildings ns"
  by (auto simp: gathering_logic_def gather_forest_def gather_mountain_def finish_gather_def
                 unshift_def Let_def
           split: if_splits option.splits sum.splits)

lemma sound_update_npc:
  assumes "list_all sound_building (buildings ns)" and "update_npc rnd k ns npc = Inr (npc', ns', k')"
  shows "list_all sound_building (buildings ns')"
proof (cases "state npc")
  case IDLE
  with assms show ?thesis by (auto simp: update_npc_def split: prod.splits)
next
  case MOVING
  with assms show ?thesis by (auto simp: update_npc_def split: sum.splits)
next
  case GATHERING
  with assms show ?thesis by (auto simp: update_npc_def dest: buildings_gathering)
next
  case BUILDING
  with assms sound_building_logic [of ns npc] show ?thesis
    by (auto simp: update_npc_def split: prod.splits)
next
  case SLEEPING
  with assms show ?thesis by (auto simp: update_npc_def)
next
  case FIGHTING
  with assms show ?thesis by (auto simp: update_npc_def)
next
  case CRAFTING
  with assms buildings_crafting [of ns npc] show ?thesis
    by (auto simp: update_npc_def split: prod.splits)
next
  case FARMING
  with assms buildings_farming [of rnd k ns npc] show ?thesis
    by (auto simp: update_npc_def)
qed

lemma sound_update_npcs:
  "list_all sound_building (buildings ns) \<Longrightarrow> update_npcs rnd k ns xs = Inr (xs', ns', k')
     \<Longrightarrow> list_all sound_building (buildings ns')"
proof (induction xs arbitrary: ns k xs')
  case Nil
  then show ?case by simp
next
  case (Cons npc rest)
  from Cons.prems(2) obtain npc1 ns1 k1 rest1 where
    a: "update_npc rnd k ns npc = Inr (npc1, ns1, k1)" and
    b: "update_npcs rnd k1 ns1 rest = Inr (rest1, ns', k')"
    by (auto split: sum.splits)
  from sound_update_npc [OF Cons.prems(1) a] have "list_all sound_building (buildings ns1)" .
  from Cons.IH [OF this b] show ?case .
qed

lemma sound_updateGameState:
  assumes "list_all sound_building (buildings s)" and "updateGameState rnd s = Inr s'"
  shows "list_all sound_building (buildings s')"
proof -
  let ?ns = "fate_gain (change_weather (s\<lparr> tickCount := tickCount s + 1 \<rparr>))"
  have ns: "list_all sound_building (buildings ?ns)"
    using assms(1) by (simp add: fate_gain_def change_weather_def Let_def)
  from assms(2) obtain xs' ns' k' where
    u: "update_npcs rnd 0 ?ns (npcs ?ns) = Inr (xs', ns', k')" and
    s': "s' = random_event rnd k' (ns'\<lparr> npcs := xs' \<rparr>)"
    by (auto simp: updateGameState_def Let_def split: sum.splits)
  from sound_update_npcs [OF ns u] have "list_all sound_building (buildings ns')" .
  then show ?thesis
    unfolding s' by (simp add: random_event_def unshift_def)
qed

lemma sound_placeBuilding:
  assumes "list_all sound_building (buildings s)" and "placeBuilding now s cx cy t = Placed s'"
  shows "list_all sound_building (buildings s')"
  using assms
  by (auto simp: placeBuilding_def Let_def sound_building_def split: if_splits sum.splits)

lemma buildings_handleAction: "buildings (handleAction a s) = buildings s"
  by (simp add: handleAction_def bless_def cycleRole_def unshift_def Let_def split: option.splits)

lemma reachable_sound: "reachable s \<Longrightarrow> list_all sound_building (buildings s)"
proof (induction rule: reachable.induct)
  case (genesis nm seedInput rnd now s)
  with createInitialState_Inr [of nm seedInput rnd now] show ?case
    by (auto simp: sound_building_def base_building_def)
next
  case (tick s rnd s')
  then show ?case by (blast intro: sound_updateGameState)
next
  case (place s t0 cx cy t s')
  then show ?case by (blast intro: sound_placeBuilding)
next
  case (select s i)
  then show ?case by (simp add: handleEntitySelect_def)
next
  case (action s a)
  then show ?case by (simp add: buildings_handleAction)
qed

text \<open>
  The part of the invariant of buildings that does hold: in every reachable state the
  progress of every building is at least 0, and the building is completed exactly when
  its progress has reached its maximum.
\<close>

theorem completed_iff_progress:
  "reachable s \<Longrightarrow> b \<in> set (buildings s) \<Longrightarrow>
     0 \<le> constructionProgress b
     \<and> (completed b \<longleftrightarrow> constructionProgress b \<ge> maxConstructionProgress b)"
  using reachable_sound [of s] by (simp add: list_all_iff sound_building_def)

theorem completed_iff_progress_witness:
  "\<exists>s s'. createInitialState ''Ironhold'' (Some 42) (draws 0) clock0 = Inr s
     \<and> placeBuilding 0 s 24 20 BASE = Placed s'
     \<and> reachable s'
     \<and> list_all (\<lambda>b. 0 \<le> constructionProgress b
                      \<and> (completed b \<longleftrightarrow> constructionProgress b \<ge> maxConstructionProgress b))
          (buildings s')
     \<and> map completed (buildings s') = [True, False]"
proof -
  from createInitialState_Inr [of "''Ironhold''" "Some 42" "draws 0" clock0]
  obtain s where s: "createInitialState ''Ironhold'' (Some 42) (draws 0) clock0 = Inr s"
    "grid MAP_HEIGHT MAP_WIDTH (tiles s)"
    "\<forall>tx ty. \<bar>tx - 25\<bar> \<le> 3 \<and> \<bar>ty - 20\<bar> \<le> 3 \<longrightarrow> tile_at (tiles s) tx ty = Some GRASS"
    "buildings s = [base_building]"
    by blast
  have "tile_at (tiles s) 24 20 = Some GRASS" using s(3) by simp
  then have r: "read_tile (tiles s) 24 20 = Inr (Some GRASS)"
    using s(2) by (simp add: read_tile_def grid_def MAP_HEIGHT_def)
  have "\<exists>s'. placeBuilding 0 s 24 20 BASE = Placed s' \<and> map completed (buildings s') = [True, False]"
    using r s(4)
    by (simp add: placeBuilding_def MAP_WIDTH_def MAP_HEIGHT_def at_xy_def base_building_def
                  short_of_def deduct_def)
  then obtain s' where s': "placeBuilding 0 s 24 20 BASE = Placed s'"
    "map completed (buildings s') = [True, False]"
    by auto
  have reach: "reachable s'"
    using s(1) s'(1) by (blast intro: reachable.genesis reachable.place)
  have "list_all (\<lambda>b. 0 \<le> constructionProgress b
                      \<and> (completed b \<longleftrightarrow> constructionProgress b \<ge> maxConstructionProgress b))
          (buildings s')"
    using completed_iff_progress [OF reach] by (simp add: list_all_iff)
  with s(1) s' reach show ?thesis
    by - (rule exI [of _ s], rule exI [of _ s'], simp)
qed

end
